theory Spec2Isabelle
  imports Main "HOL-Library.Sublist"
begin

section \<open>Data model (r2c.go, lines 14-36)\<close>

text \<open>
  Go strings are byte sequences: \<open>string\<close> is \<open>char list\<close> and a \<open>char\<close> is one byte.
  A slice \<open>[]string\<close> is a list (a nil slice and an empty one are both \<open>[]\<close>), the
  pointer \<open>*ReleaseNotes\<close> is an \<open>option\<close> (nil is \<open>None\<close>). Every element of the global
  slice \<open>releases\<close> owns its notes: \<open>json.Unmarshal\<close> and \<open>&ReleaseNotes{}\<close> allocate a
  fresh struct for each element, so no two elements share one.
\<close>

record Commit =
  Sha :: string
  Url :: string

record ReleaseNotes =
  ReleaseName :: string
  Version :: string
  Fixes :: "string list"
  Features :: "string list"
  Maintenance :: "string list"
  Changes :: "string list"

record Release =
  Name :: string
  ZipballUrl :: string
  TarballUrl :: string
  Commit :: Commit
  ReleaseNotes :: "ReleaseNotes option"

text \<open>The zero value \<open>ReleaseNotes{}\<close>.\<close>

definition emptyNotes :: ReleaseNotes where
  "emptyNotes = \<lparr>ReleaseName = [], Version = [], Fixes = [], Features = [],
     Maintenance = [], Changes = []\<rparr>"

text \<open>
  The notes an element has once lines 83-85 (96-98, 109-111, 122-124) have run: the
  existing ones, or the zero value when the pointer was nil.
\<close>

definition notesOrNew :: "Release \<Rightarrow> ReleaseNotes" where
  "notesOrNew r = (case ReleaseNotes r of None \<Rightarrow> emptyNotes | Some n \<Rightarrow> n)"

section \<open>The four insert loops (lines 80-130)\<close>

text \<open>
  Each loop visits every element of \<open>releases\<close> in order and rewrites the elements whose
  \<open>Name\<close> equals the argument \<open>name\<close>; the store is passed in and returned.
\<close>

fun insertFix :: "string \<Rightarrow> string \<Rightarrow> string \<Rightarrow> Release list \<Rightarrow> Release list" where
  "insertFix rel nm line [] = []"
| "insertFix rel nm line (r # rs) =
     (if Name r = nm
      then r\<lparr>ReleaseNotes := Some ((notesOrNew r)\<lparr>ReleaseName := rel, Version := nm,
                Fixes := Fixes (notesOrNew r) @ [line]\<rparr>)\<rparr>
      else r) # insertFix rel nm line rs"

fun insertFeature :: "string \<Rightarrow> string \<Rightarrow> string \<Rightarrow> Release list \<Rightarrow> Release list" where
  "insertFeature rel nm line [] = []"
| "insertFeature rel nm line (r # rs) =
     (if Name r = nm
      then r\<lparr>ReleaseNotes := Some ((notesOrNew r)\<lparr>ReleaseName := rel, Version := nm,
                Features := Features (notesOrNew r) @ [line]\<rparr>)\<rparr>
      else r) # insertFeature rel nm line rs"

fun insertMaintenance :: "string \<Rightarrow> string \<Rightarrow> string \<Rightarrow> Release list \<Rightarrow> Release list" where
  "insertMaintenance rel nm line [] = []"
| "insertMaintenance rel nm line (r # rs) =
     (if Name r = nm
      then r\<lparr>ReleaseNotes := Some ((notesOrNew r)\<lparr>ReleaseName := rel, Version := nm,
                Maintenance := Maintenance (notesOrNew r) @ [line]\<rparr>)\<rparr>
      else r) # insertMaintenance rel nm line rs"

fun insertChange :: "string \<Rightarrow> string \<Rightarrow> string \<Rightarrow> Release list \<Rightarrow> Release list" where
  "insertChange rel nm line [] = []"
| "insertChange rel nm line (r # rs) =
     (if Name r = nm
      then r\<lparr>ReleaseNotes := Some ((notesOrNew r)\<lparr>ReleaseName := rel, Version := nm,
                Changes := Changes (notesOrNew r) @ [line]\<rparr>)\<rparr>
      else r) # insertChange rel nm line rs"

section \<open>Library functions used by parseChangelog\<close>

subsection \<open>The pattern \<open>[0-9]+\.[0-9]+\.[0-9]+\<close> (line 133)\<close>

definition isDigit :: "char \<Rightarrow> bool" where
  "isDigit c = (c \<in> set ''0123456789'')"

text \<open>
  A match that starts at the first byte of \<open>s\<close>. The three \<open>+\<close> are greedy, and a run
  of digits cut short is followed by a digit, never by the dot the pattern wants next, so
  each group is the whole run of digits.
\<close>

definition matchHere :: "string \<Rightarrow> string option" where
  "matchHere s =
     (let a = takeWhile isDigit s; s1 = dropWhile isDigit s in
      if a = [] then None
      else case s1 of
        [] \<Rightarrow> None
      | d1 # s2 \<Rightarrow>
          if d1 \<noteq> CHR ''.'' then None
          else let b = takeWhile isDigit s2; s3 = dropWhile isDigit s2 in
            if b = [] then None
            else case s3 of
              [] \<Rightarrow> None
            | d2 # s4 \<Rightarrow>
                if d2 \<noteq> CHR ''.'' then None
                else let c = takeWhile isDigit s4 in
                  if c = [] then None
                  else Some (a @ ''.'' @ b @ ''.'' @ c))"

text \<open>\<open>validVersion.Find\<close>: the leftmost match, \<open>None\<close> for Go's nil.\<close>

fun Find :: "string \<Rightarrow> string option" where
  "Find [] = None"
| "Find (c # cs) = (case matchHere (c # cs) of Some m \<Rightarrow> Some m | None \<Rightarrow> Find cs)"

text \<open>\<open>string(validVersion.Find([]byte(s)))\<close>: nil converts to the empty string.\<close>

definition FindString :: "string \<Rightarrow> string" where
  "FindString s = (case Find s of None \<Rightarrow> [] | Some m \<Rightarrow> m)"

definition MatchString :: "string \<Rightarrow> bool" where
  "MatchString s = (Find s \<noteq> None)"

subsection \<open>Package strings\<close>

text \<open>\<open>strings.TrimRight(s, " \t\n\v\f\r")\<close>: the six bytes of the cutset of line 144.\<close>

definition inCutset :: "char \<Rightarrow> bool" where
  "inCutset c = (c \<in> set [CHR '' '', CHR 0x09, CHR 0x0A, CHR 0x0B, CHR 0x0C, CHR 0x0D])"

definition TrimRight :: "string \<Rightarrow> string" where
  "TrimRight s = rev (dropWhile inCutset (rev s))"

text \<open>
  \<open>strings.TrimSpace\<close> removes the leading and trailing runes for which
  \<open>unicode.IsSpace\<close> holds. These are the UTF-8 encodings of those runes: the six ASCII
  ones, U+0085, U+00A0, U+1680, U+2000 to U+200A, U+2028, U+2029, U+202F, U+205F and
  U+3000. A byte that starts no valid encoding decodes to U+FFFD, which is no space.
\<close>

definition spaceRunes :: "string list" where
  "spaceRunes =
     [[CHR 0x09], [CHR 0x0A], [CHR 0x0B], [CHR 0x0C], [CHR 0x0D], [CHR 0x20],
      [CHR 0xC2, CHR 0x85], [CHR 0xC2, CHR 0xA0],
      [CHR 0xE1, CHR 0x9A, CHR 0x80],
      [CHR 0xE2, CHR 0x80, CHR 0x80], [CHR 0xE2, CHR 0x80, CHR 0x81],
      [CHR 0xE2, CHR 0x80, CHR 0x82], [CHR 0xE2, CHR 0x80, CHR 0x83],
      [CHR 0xE2, CHR 0x80, CHR 0x84], [CHR 0xE2, CHR 0x80, CHR 0x85],
      [CHR 0xE2, CHR 0x80, CHR 0x86], [CHR 0xE2, CHR 0x80, CHR 0x87],
      [CHR 0xE2, CHR 0x80, CHR 0x88], [CHR 0xE2, CHR 0x80, CHR 0x89],
      [CHR 0xE2, CHR 0x80, CHR 0x8A],
      [CHR 0xE2, CHR 0x80, CHR 0xA8], [CHR 0xE2, CHR 0x80, CHR 0xA9],
      [CHR 0xE2, CHR 0x80, CHR 0xAF],
      [CHR 0xE2, CHR 0x81, CHR 0x9F],
      [CHR 0xE3, CHR 0x80, CHR 0x80]]"

text \<open>The width in bytes of the space rune \<open>s\<close> starts with, 0 when it starts with none.\<close>

definition leadingSpace :: "string list \<Rightarrow> string \<Rightarrow> nat" where
  "leadingSpace runes s = (case List.find (\<lambda>q. prefix q s) runes of None \<Rightarrow> 0 | Some q \<Rightarrow> length q)"

function trimLeading :: "string list \<Rightarrow> string \<Rightarrow> string" where
  "trimLeading runes s =
     (if s = [] \<or> leadingSpace runes s = 0 then s
      else trimLeading runes (drop (leadingSpace runes s) s))"
  by pat_completeness auto
termination
  by (relation "measure (\<lambda>(runes, s). length s)") auto

declare trimLeading.simps [simp del]

text \<open>
  The trailing runes are found by decoding backwards; a string ends with the encoding of a
  space rune exactly when its reversal starts with the reversed encoding.
\<close>

definition TrimSpace :: "string \<Rightarrow> string" where
  "TrimSpace s = rev (trimLeading (map rev spaceRunes) (rev (trimLeading spaceRunes s)))"

text \<open>\<open>strings.Contains(s, substr)\<close>.\<close>

definition Contains :: "string \<Rightarrow> string \<Rightarrow> bool" where
  "Contains s substr = sublist substr s"

subsection \<open>bufio.Scanner with the default split function ScanLines\<close>

text \<open>\<open>dropCR\<close>: one trailing carriage return is removed from a token.\<close>

definition dropCR :: "string \<Rightarrow> string" where
  "dropCR tok = (if tok \<noteq> [] \<and> last tok = CHR 0x0D then butlast tok else tok)"

text \<open>
  The scanner's buffer grows to \<open>MaxScanTokenSize\<close> = 64 * 1024 bytes and no further. A
  line whose first 65536 bytes hold no newline makes \<open>Scan\<close> return false
  (\<open>ErrTooLong\<close>); parseChangelog never looks at \<open>scanner.Err()\<close>, so its loop just ends.
\<close>

definition MaxScanTokenSize :: nat where
  "MaxScanTokenSize = 64 * 1024"

text \<open>
  The tokens \<open>scanner.Text()\<close> returns, one for each successful \<open>scanner.Scan()\<close>;
  \<open>tok\<close> holds the bytes of the line read so far. Input that ends without a newline
  gives a last token; input that ends with one gives no empty token after it.
\<close>

fun scanFrom :: "string \<Rightarrow> string \<Rightarrow> string list" where
  "scanFrom tok [] =
     (if tok = [] \<or> MaxScanTokenSize \<le> length tok then [] else [dropCR tok])"
| "scanFrom tok (c # cs) =
     (if c = CHR 0x0A then
        (if MaxScanTokenSize \<le> length tok then [] else dropCR tok # scanFrom [] cs)
      else scanFrom (tok @ [c]) cs)"

definition scanLines :: "string \<Rightarrow> string list" where
  "scanLines s = scanFrom [] s"

section \<open>parseChangelog (lines 132-202)\<close>

text \<open>
  The local variables of parseChangelog and the global slice \<open>releases\<close> it updates
  through the insert functions.
\<close>

record pstate =
  release :: string
  name :: string
  comment :: string
  "fixes" :: bool
  features :: bool
  maintenance :: bool
  releases :: "Release list"

text \<open>Lines 135-140: the state before the first line.\<close>

definition initState :: "Release list \<Rightarrow> pstate" where
  "initState rs = \<lparr>release = [], name = [], comment = [], fixes = False, features = False,
     maintenance = False, releases = rs\<rparr>"

text \<open>Lines 154-164: a non-empty buffered comment goes to the insert function the flags select.\<close>

definition flushComment :: "pstate \<Rightarrow> pstate" where
  "flushComment st =
     (if comment st \<noteq> [] then
        (if fixes st then
           st\<lparr>releases := insertFix (release st) (name st) (comment st) (releases st)\<rparr>
         else if features st then
           st\<lparr>releases := insertFeature (release st) (name st) (comment st) (releases st)\<rparr>
         else if maintenance st then
           st\<lparr>releases := insertMaintenance (release st) (name st) (comment st) (releases st)\<rparr>
         else
           st\<lparr>releases := insertChange (release st) (name st) (comment st) (releases st)\<rparr>)
      else st)"

text \<open>Lines 166-174.\<close>

definition releaseHeading :: "string \<Rightarrow> pstate \<Rightarrow> pstate" where
  "releaseHeading line st =
     (if 3 \<le> length line \<and> take 3 line = ''## '' then
        st\<lparr>release := drop 3 line, name := ''v'' @ FindString (drop 3 line), comment := [],
           fixes := False, features := False, maintenance := False\<rparr>
      else st)"

text \<open>Lines 179-196.\<close>

definition categoryHeading :: "string \<Rightarrow> pstate \<Rightarrow> pstate" where
  "categoryHeading line st =
     (if 4 \<le> length line \<and> take 4 line = ''### '' then
        (if Contains line ''Fixes'' then
           st\<lparr>comment := [], fixes := True, features := False, maintenance := False\<rparr>
         else if Contains line ''Features'' then
           st\<lparr>comment := [], fixes := False, features := True, maintenance := False\<rparr>
         else if Contains line ''Chore & Maintenance'' then
           st\<lparr>comment := [], fixes := False, features := False, maintenance := True\<rparr>
         else st)
      else st)"

text \<open>Lines 198-200.\<close>

definition bulletLine :: "string \<Rightarrow> pstate \<Rightarrow> pstate" where
  "bulletLine line st =
     (if 2 \<le> length line \<and> take 2 line = ''* '' then st\<lparr>comment := drop 2 line\<rparr> else st)"

text \<open>
  The loop body, lines 144-200, on one token of the scanner. Each \<open>continue\<close> of the
  source is a branch that returns the state as it is at that point.
\<close>

definition parseLine :: "string \<Rightarrow> pstate \<Rightarrow> pstate" where
  "parseLine text st =
     (let line = TrimRight text in
      if length line = 0 then st
      else if 1 \<le> length line \<and> hd line \<noteq> CHR ''#'' \<and> hd line \<noteq> CHR ''*'' then
        st\<lparr>comment := comment st @ [CHR 0x0A] @ TrimSpace line\<rparr>
      else
        let st1 = releaseHeading line (flushComment st) in
        if \<not> MatchString (release st1) then st1
        else bulletLine line (categoryHeading line st1))"

text \<open>The loop of lines 143-201 over the scanner's tokens.\<close>

fun parseLines :: "string list \<Rightarrow> pstate \<Rightarrow> pstate" where
  "parseLines [] st = st"
| "parseLines (t # ts) st = parseLines ts (parseLine t st)"

text \<open>The state in which the loop ends, and the store parseChangelog leaves behind.\<close>

definition runParser :: "string \<Rightarrow> Release list \<Rightarrow> pstate" where
  "runParser changelog rs = parseLines (scanLines changelog) (initState rs)"

definition parseChangelog :: "string \<Rightarrow> Release list \<Rightarrow> Release list" where
  "parseChangelog changelog rs = releases (runParser changelog rs)"

section \<open>Vocabulary of the properties\<close>

text \<open>
  A line that begins with \<open>#\<close> or \<open>*\<close>: the lines that are not buffered as the
  continuation of a comment (line 149).
\<close>

definition isBoundary :: "string \<Rightarrow> bool" where
  "isBoundary text = (text \<noteq> [] \<and> (hd text = CHR ''#'' \<or> hd text = CHR ''*''))"

text \<open>
  The category the flags select, in the order lines 155-163 test them, and the sequence of
  the notes that belongs to it.
\<close>

datatype category = CatFixes | CatFeatures | CatMaintenance | CatChanges

definition activeCategory :: "pstate \<Rightarrow> category" where
  "activeCategory st =
     (if fixes st then CatFixes
      else if features st then CatFeatures
      else if maintenance st then CatMaintenance
      else CatChanges)"

fun categorySeq :: "category \<Rightarrow> ReleaseNotes \<Rightarrow> string list" where
  "categorySeq CatFixes n = Fixes n"
| "categorySeq CatFeatures n = Features n"
| "categorySeq CatMaintenance n = Maintenance n"
| "categorySeq CatChanges n = Changes n"

text \<open>
  The notes of a release after a run compared with those before: notes that exist stay,
  and each of the four sequences keeps its old entries in front, in order.
\<close>

fun notesExtended :: "ReleaseNotes option \<Rightarrow> ReleaseNotes option \<Rightarrow> bool" where
  "notesExtended None new = True"
| "notesExtended (Some n) None = False"
| "notesExtended (Some n) (Some n') =
     (prefix (Fixes n) (Fixes n') \<and> prefix (Features n) (Features n') \<and>
      prefix (Maintenance n) (Maintenance n') \<and> prefix (Changes n) (Changes n'))"

text \<open>Nothing but the notes of a release differs, and the notes have only grown.\<close>

definition onlyNotesGrow :: "Release \<Rightarrow> Release \<Rightarrow> bool" where
  "onlyNotesGrow r r' =
     (Name r' = Name r \<and> ZipballUrl r' = ZipballUrl r \<and> TarballUrl r' = TarballUrl r \<and>
      Commit r' = Commit r \<and> notesExtended (ReleaseNotes r) (ReleaseNotes r'))"

text \<open>
  A category heading line 180, 185 or 190 recognises: it begins with \<open>###\<close> and a space
  and holds one of the three keywords.
\<close>

definition recognizedCategory :: "string \<Rightarrow> bool" where
  "recognizedCategory l =
     (prefix ''### '' l \<and>
      (Contains l ''Fixes'' \<or> Contains l ''Features'' \<or> Contains l ''Chore & Maintenance''))"

text \<open>
  What the pattern of line 133 describes, said without the matcher: three non-empty runs
  of decimal digits joined by two dots. \<open>hasVersion s\<close>: some substring of \<open>s\<close> is of that
  form. \<open>firstVersion s m\<close>: \<open>m\<close> is the occurrence that starts first in \<open>s\<close>, and the
  longest of those that start there.
\<close>

definition isVersion :: "string \<Rightarrow> bool" where
  "isVersion w =
     (\<exists>a b c. w = a @ ''.'' @ b @ ''.'' @ c \<and> a \<noteq> [] \<and> b \<noteq> [] \<and> c \<noteq> [] \<and>
        list_all isDigit a \<and> list_all isDigit b \<and> list_all isDigit c)"

definition hasVersion :: "string \<Rightarrow> bool" where
  "hasVersion s = (\<exists>pre m post. s = pre @ m @ post \<and> isVersion m)"

definition firstVersion :: "string \<Rightarrow> string \<Rightarrow> bool" where
  "firstVersion s m =
     (\<exists>pre post. s = pre @ m @ post \<and> isVersion m \<and>
        (\<forall>pre' m' post'. s = pre' @ m' @ post' \<and> isVersion m' \<longrightarrow>
           length pre < length pre' \<or> (length pre = length pre' \<and> length m' \<le> length m)))"

text \<open>
  Every line of the input fits the scanner's buffer, so that the scanner reaches the end
  of the input; \<open>tok\<close> is the part of the current line already read.
\<close>

fun fitsBuffer :: "string \<Rightarrow> string \<Rightarrow> bool" where
  "fitsBuffer tok [] = (length tok < MaxScanTokenSize)"
| "fitsBuffer tok (c # cs) =
     (if c = CHR 0x0A then length tok < MaxScanTokenSize \<and> fitsBuffer [] cs
      else fitsBuffer (tok @ [c]) cs)"

section \<open>The insert loops\<close>

text \<open>Each loop is a map over the store: it keeps the length, the order and every release of another name.\<close>

lemma insertFix_map:
  "insertFix rel nm line rs =
     map (\<lambda>r. if Name r = nm
          then r\<lparr>ReleaseNotes := Some ((notesOrNew r)\<lparr>ReleaseName := rel, Version := nm,
                Fixes := Fixes (notesOrNew r) @ [line]\<rparr>)\<rparr> else r) rs"
  by (induction rs) simp_all

lemma insertFeature_map:
  "insertFeature rel nm line rs =
     map (\<lambda>r. if Name r = nm
          then r\<lparr>ReleaseNotes := Some ((notesOrNew r)\<lparr>ReleaseName := rel, Version := nm,
                Features := Features (notesOrNew r) @ [line]\<rparr>)\<rparr> else r) rs"
  by (induction rs) simp_all

lemma insertMaintenance_map:
  "insertMaintenance rel nm line rs =
     map (\<lambda>r. if Name r = nm
          then r\<lparr>ReleaseNotes := Some ((notesOrNew r)\<lparr>ReleaseName := rel, Version := nm,
                Maintenance := Maintenance (notesOrNew r) @ [line]\<rparr>)\<rparr> else r) rs"
  by (induction rs) simp_all

lemma insertChange_map:
  "insertChange rel nm line rs =
     map (\<lambda>r. if Name r = nm
          then r\<lparr>ReleaseNotes := Some ((notesOrNew r)\<lparr>ReleaseName := rel, Version := nm,
                Changes := Changes (notesOrNew r) @ [line]\<rparr>)\<rparr> else r) rs"
  by (induction rs) simp_all

lemma insertFix_absent: "\<forall>r \<in> set rs. Name r \<noteq> nm \<Longrightarrow> insertFix rel nm line rs = rs"
  by (induction rs) simp_all

lemma insertFeature_absent: "\<forall>r \<in> set rs. Name r \<noteq> nm \<Longrightarrow> insertFeature rel nm line rs = rs"
  by (induction rs) simp_all

lemma insertMaintenance_absent:
  "\<forall>r \<in> set rs. Name r \<noteq> nm \<Longrightarrow> insertMaintenance rel nm line rs = rs"
  by (induction rs) simp_all

lemma insertChange_absent: "\<forall>r \<in> set rs. Name r \<noteq> nm \<Longrightarrow> insertChange rel nm line rs = rs"
  by (induction rs) simp_all

lemma length_insertFix [simp]: "length (insertFix rel nm line rs) = length rs"
  by (simp add: insertFix_map)

lemma length_insertFeature [simp]: "length (insertFeature rel nm line rs) = length rs"
  by (simp add: insertFeature_map)

lemma length_insertMaintenance [simp]: "length (insertMaintenance rel nm line rs) = length rs"
  by (simp add: insertMaintenance_map)

lemma length_insertChange [simp]: "length (insertChange rel nm line rs) = length rs"
  by (simp add: insertChange_map)

section \<open>The version pattern\<close>

text \<open>
  The matcher finds what the pattern describes: \<open>Find\<close> returns the first occurrence of a
  version, the longest one that starts there, and nothing exactly when there is none.
\<close>

lemma not_digit_dot: "\<not> isDigit CHR ''.''"
  by (simp add: isDigit_def)

lemma takeWhile_digits_dot:
  "list_all isDigit a \<Longrightarrow> takeWhile isDigit (a @ CHR ''.'' # r) = a"
  by (induction a) (simp_all add: not_digit_dot)

lemma dropWhile_digits_dot:
  "list_all isDigit a \<Longrightarrow> dropWhile isDigit (a @ CHR ''.'' # r) = CHR ''.'' # r"
  by (induction a) (simp_all add: not_digit_dot)

lemma takeWhile_digits_more:
  "list_all isDigit c \<Longrightarrow> takeWhile isDigit (c @ r) = c @ takeWhile isDigit r"
  by (induction c) simp_all

lemma list_all_takeWhile: "list_all P (takeWhile P xs)"
  by (induction xs) simp_all

lemma takeWhile_dropWhile_Nil: "takeWhile P (dropWhile P xs) = []"
  by (induction xs) simp_all

lemma matchHere_complete:
  assumes "a \<noteq> []" "b \<noteq> []" "c \<noteq> []" "list_all isDigit a" "list_all isDigit b" "list_all isDigit c"
  shows "matchHere (a @ ''.'' @ b @ ''.'' @ c @ r) =
    Some (a @ ''.'' @ b @ ''.'' @ c @ takeWhile isDigit r)"
  using assms
  by (simp add: matchHere_def takeWhile_digits_dot dropWhile_digits_dot takeWhile_digits_more
      not_digit_dot)

lemma matchHere_version_prefix:
  assumes "isVersion m'"
  shows "matchHere (m' @ r) = Some (m' @ takeWhile isDigit r)"
proof -
  obtain a b c where m': "m' = a @ ''.'' @ b @ ''.'' @ c" and ne: "a \<noteq> []" "b \<noteq> []" "c \<noteq> []"
    and dg: "list_all isDigit a" "list_all isDigit b" "list_all isDigit c"
    using assms by (auto simp: isVersion_def)
  show ?thesis
    using matchHere_complete [OF ne dg, of r] by (simp add: m')
qed

lemma matchHere_sound:
  assumes "matchHere s = Some m"
  shows "isVersion m \<and> (\<exists>r. s = m @ r \<and> takeWhile isDigit r = [])"
proof -
  from assms obtain s2 s4 where a: "takeWhile isDigit s \<noteq> []"
    and s1: "dropWhile isDigit s = CHR ''.'' # s2"
    and b: "takeWhile isDigit s2 \<noteq> []"
    and s3: "dropWhile isDigit s2 = CHR ''.'' # s4"
    and c: "takeWhile isDigit s4 \<noteq> []"
    and m: "m = takeWhile isDigit s @ ''.'' @ takeWhile isDigit s2 @ ''.'' @ takeWhile isDigit s4"
    by (auto simp: matchHere_def Let_def split: if_splits list.splits)
  have "isVersion m"
    unfolding isVersion_def
    using a b c m
    by (intro exI [of _ "takeWhile isDigit s"] exI [of _ "takeWhile isDigit s2"]
        exI [of _ "takeWhile isDigit s4"]) (simp add: list_all_takeWhile)
  moreover have "s = takeWhile isDigit s @ dropWhile isDigit s"
    and "s2 = takeWhile isDigit s2 @ dropWhile isDigit s2"
    and "s4 = takeWhile isDigit s4 @ dropWhile isDigit s4"
    by simp_all
  then have "s = m @ dropWhile isDigit s4"
    using s1 s3 m by (metis append.assoc append_Cons append_Nil)
  moreover have "takeWhile isDigit (dropWhile isDigit s4) = []"
    by (rule takeWhile_dropWhile_Nil)
  ultimately show ?thesis by blast
qed

lemma isVersion_not_Nil: "\<not> isVersion []"
  by (simp add: isVersion_def)

lemma matchHere_longest:
  assumes "matchHere s = Some m" and "s = m' @ post'" and "isVersion m'"
  shows "length m' \<le> length m"
proof -
  have "matchHere s = Some (m' @ takeWhile isDigit post')"
    using assms(2,3) by (simp add: matchHere_version_prefix)
  then show ?thesis
    using assms(1) by simp
qed

lemma Find_None_no_version:
  "Find s = None \<Longrightarrow> s = pre @ m @ post \<Longrightarrow> isVersion m \<Longrightarrow> False"
proof (induction s arbitrary: pre)
  case Nil
  then show ?case by (simp add: isVersion_not_Nil)
next
  case (Cons c cs)
  from Cons.prems(1) have mh: "matchHere (c # cs) = None" and f: "Find cs = None"
    by (simp_all split: option.splits)
  show ?case
  proof (cases pre)
    case Nil
    then have "matchHere (c # cs) = Some (m @ takeWhile isDigit post)"
      using Cons.prems(2,3) by (simp add: matchHere_version_prefix)
    with mh show False by simp
  next
    case (Cons p pre')
    then have "cs = pre' @ m @ post"
      using Cons.prems(2) by simp
    then show False
      using Cons.IH f Cons.prems(3) by blast
  qed
qed

lemma Find_Some_first:
  "Find s = Some m \<Longrightarrow>
   \<exists>pre post. s = pre @ m @ post \<and> isVersion m \<and>
     (\<forall>pre' m' post'. s = pre' @ m' @ post' \<and> isVersion m' \<longrightarrow>
        length pre < length pre' \<or> (length pre = length pre' \<and> length m' \<le> length m))"
proof (induction s)
  case Nil
  then show ?case by simp
next
  case (Cons c cs)
  show ?case
  proof (cases "matchHere (c # cs)")
    case (Some m0)
    then have m0: "m0 = m"
      using Cons.prems by simp
    obtain r where v: "isVersion m" and r: "c # cs = m @ r"
      using matchHere_sound [OF Some] m0 by blast
    have "\<forall>pre' m' post'. c # cs = pre' @ m' @ post' \<and> isVersion m' \<longrightarrow>
        length ([]::string) < length pre' \<or>
        (length ([]::string) = length pre' \<and> length m' \<le> length m)"
    proof (intro allI impI)
      fix pre' m' post'
      assume h: "c # cs = pre' @ m' @ post' \<and> isVersion m'"
      show "length ([]::string) < length pre' \<or>
        (length ([]::string) = length pre' \<and> length m' \<le> length m)"
      proof (cases pre')
        case Nil
        then have "length m' \<le> length m"
          using matchHere_longest [of "c # cs" m m' post'] Some m0 h by simp
        with Nil show ?thesis by simp
      next
        case (Cons p ps)
        then show ?thesis by simp
      qed
    qed
    with v r show ?thesis
      by (intro exI [of _ "[]"] exI [of _ r]) simp
  next
    case None
    then have f: "Find cs = Some m"
      using Cons.prems by simp
    from Cons.IH [OF f] obtain pre post where cs: "cs = pre @ m @ post" and v: "isVersion m"
      and first: "\<forall>pre' m' post'. cs = pre' @ m' @ post' \<and> isVersion m' \<longrightarrow>
        length pre < length pre' \<or> (length pre = length pre' \<and> length m' \<le> length m)"
      by blast
    have "\<forall>pre' m' post'. c # cs = pre' @ m' @ post' \<and> isVersion m' \<longrightarrow>
        length (c # pre) < length pre' \<or>
        (length (c # pre) = length pre' \<and> length m' \<le> length m)"
    proof (intro allI impI)
      fix pre' m' post'
      assume h: "c # cs = pre' @ m' @ post' \<and> isVersion m'"
      show "length (c # pre) < length pre' \<or>
        (length (c # pre) = length pre' \<and> length m' \<le> length m)"
      proof (cases pre')
        case Nil
        then have "matchHere (c # cs) = Some (m' @ takeWhile isDigit post')"
          using h by (simp add: matchHere_version_prefix)
        with None show ?thesis by simp
      next
        case (Cons p ps)
        then have "cs = ps @ m' @ post'"
          using h by simp
        then have "length pre < length ps \<or> (length pre = length ps \<and> length m' \<le> length m)"
          using first h by blast
        with Cons show ?thesis by auto
      qed
    qed
    with cs v show ?thesis
      by (intro exI [of _ "c # pre"] exI [of _ post]) simp
  qed
qed

lemma Find_None_iff: "(Find s = None) = (\<not> hasVersion s)"
proof
  assume "Find s = None"
  then show "\<not> hasVersion s"
    using Find_None_no_version by (auto simp: hasVersion_def)
next
  assume n: "\<not> hasVersion s"
  show "Find s = None"
  proof (cases "Find s")
    case None
    then show ?thesis .
  next
    case (Some m)
    then have "hasVersion s"
      using Find_Some_first [OF Some] by (auto simp: hasVersion_def)
    with n show ?thesis by simp
  qed
qed

lemma Find_Some_iff: "(Find s = Some m) = firstVersion s m"
proof
  assume "Find s = Some m"
  then show "firstVersion s m"
    unfolding firstVersion_def by (rule Find_Some_first)
next
  assume fv: "firstVersion s m"
  then obtain pre post where s: "s = pre @ m @ post" and v: "isVersion m"
    and first: "\<forall>pre' m' post'. s = pre' @ m' @ post' \<and> isVersion m' \<longrightarrow>
        length pre < length pre' \<or> (length pre = length pre' \<and> length m' \<le> length m)"
    unfolding firstVersion_def by blast
  have "Find s \<noteq> None"
    using Find_None_no_version [OF _ s v] by blast
  then obtain m0 where f: "Find s = Some m0" by blast
  from Find_Some_first [OF f] obtain pre0 post0 where s0: "s = pre0 @ m0 @ post0"
    and v0: "isVersion m0"
    and first0: "\<forall>pre' m' post'. s = pre' @ m' @ post' \<and> isVersion m' \<longrightarrow>
        length pre0 < length pre' \<or> (length pre0 = length pre' \<and> length m' \<le> length m0)"
    by blast
  have 1: "length pre < length pre0 \<or> (length pre = length pre0 \<and> length m0 \<le> length m)"
    using first s0 v0 by blast
  have 2: "length pre0 < length pre \<or> (length pre0 = length pre \<and> length m \<le> length m0)"
    using first0 s v by blast
  from 1 2 have lp: "length pre = length pre0" and lm: "length m = length m0"
    by auto
  have "pre @ m @ post = pre0 @ m0 @ post0"
    using s s0 by simp
  then have "m @ post = m0 @ post0"
    using lp by simp
  then have "m = m0"
    using lm by simp
  with f show "Find s = Some m" by simp
qed

lemma FindString_no_version: "\<not> hasVersion s \<Longrightarrow> FindString s = []"
  using Find_None_iff [of s] by (simp add: FindString_def)

lemma FindString_first: "firstVersion s m \<Longrightarrow> FindString s = m"
  using Find_Some_iff [of s m] by (simp add: FindString_def)

lemma MatchString_iff: "MatchString s = hasVersion s"
  using Find_None_iff [of s] by (simp add: MatchString_def)

lemma MatchString_Nil: "\<not> MatchString []"
  by (simp add: MatchString_def)

section \<open>Trimming and prefixes\<close>

lemma TrimRight_Nil: "TrimRight [] = []"
  by (simp add: TrimRight_def)

lemma TrimRight_Cons:
  "TrimRight (c # cs) = (if TrimRight cs = [] \<and> inCutset c then [] else c # TrimRight cs)"
  by (simp add: TrimRight_def dropWhile_append3 dropWhile_append)

lemma TrimRight_boundary:
  "isBoundary text \<Longrightarrow> TrimRight text \<noteq> [] \<and> hd (TrimRight text) = hd text"
  by (cases "text") (auto simp: isBoundary_def TrimRight_Cons inCutset_def)

lemma TrimRight_hd: "TrimRight text \<noteq> [] \<Longrightarrow> text \<noteq> [] \<and> hd (TrimRight text) = hd text"
  by (cases "text") (auto simp: TrimRight_Nil TrimRight_Cons split: if_splits)

lemma isBoundary_TrimRight:
  "isBoundary text = (TrimRight text \<noteq> [] \<and> (hd (TrimRight text) = CHR ''#'' \<or> hd (TrimRight text) = CHR ''*''))"
  using TrimRight_boundary [of "text"] TrimRight_hd [of "text"]
  by (auto simp: isBoundary_def)

lemma TrimRight_prefix: "prefix (TrimRight s) s"
proof -
  have "suffix (dropWhile inCutset (rev s)) (rev s)"
    by (rule suffix_dropWhile)
  then show ?thesis
    by (simp add: TrimRight_def suffix_to_prefix)
qed

lemma prefix_TrimRight: "prefix p (TrimRight t) \<Longrightarrow> prefix p t"
  using TrimRight_prefix [of t] by (rule prefix_order.trans [rotated])

lemma take_eq_prefix: "length p = n \<Longrightarrow> (n \<le> length l \<and> take n l = p) = prefix p l"
  by (auto simp: prefix_def) (metis append_take_drop_id)

lemma heading_prefix: "(3 \<le> length l \<and> take 3 l = ''## '') = prefix ''## '' l"
  using take_eq_prefix [of "''## ''" 3 l] by simp

lemma category_prefix: "(4 \<le> length l \<and> take 4 l = ''### '') = prefix ''### '' l"
  using take_eq_prefix [of "''### ''" 4 l] by simp

lemma bullet_prefix: "(2 \<le> length l \<and> take 2 l = ''* '') = prefix ''* '' l"
  using take_eq_prefix [of "''* ''" 2 l] by simp

lemma heading_not_others: "prefix ''## '' l \<Longrightarrow> \<not> prefix ''### '' l \<and> \<not> prefix ''* '' l"
  by (auto simp: prefix_def)

lemma category_not_others: "prefix ''### '' l \<Longrightarrow> \<not> prefix ''## '' l \<and> \<not> prefix ''* '' l"
  by (auto simp: prefix_def)

lemma prefix_hash_boundary: "prefix (CHR ''#'' # p) (TrimRight t) \<Longrightarrow> isBoundary t"
  by (auto simp: isBoundary_TrimRight prefix_def)

lemma prefix_star_boundary: "prefix (CHR ''*'' # p) (TrimRight t) \<Longrightarrow> isBoundary t"
  by (auto simp: isBoundary_TrimRight prefix_def)

lemma trimLeading_Nil: "trimLeading runes [] = []"
  by (simp add: trimLeading.simps)

lemma trimLeading_Cons:
  "trimLeading runes (c # cs) =
     (if leadingSpace runes (c # cs) = 0 then c # cs
      else trimLeading runes (drop (leadingSpace runes (c # cs)) (c # cs)))"
  by (subst trimLeading.simps) simp

section \<open>The scanner\<close>

lemma dropCR_Nil: "dropCR [] = []"
  by (simp add: dropCR_def)

lemma isBoundary_dropCR: "isBoundary (dropCR l) = isBoundary l"
proof (cases l)
  case Nil
  then show ?thesis by (simp add: dropCR_def)
next
  case (Cons c cs)
  then show ?thesis
    by (cases cs) (auto simp: dropCR_def isBoundary_def)
qed

lemma scanFrom_last_line:
  "CHR 0x0A \<notin> set l \<Longrightarrow>
   scanFrom tok l =
     (if tok @ l = [] \<or> MaxScanTokenSize \<le> length (tok @ l) then [] else [dropCR (tok @ l)])"
  by (induction l arbitrary: tok) auto

section \<open>One line of the loop\<close>

lemma flushComment_fields [simp]:
  "release (flushComment st) = release st"
  "name (flushComment st) = name st"
  "comment (flushComment st) = comment st"
  "fixes (flushComment st) = fixes st"
  "features (flushComment st) = features st"
  "maintenance (flushComment st) = maintenance st"
  by (simp_all add: flushComment_def)

lemma flushComment_releases:
  "comment st \<noteq> [] \<Longrightarrow>
   releases (flushComment st) =
     (case activeCategory st of
        CatFixes \<Rightarrow> insertFix (release st) (name st) (comment st) (releases st)
      | CatFeatures \<Rightarrow> insertFeature (release st) (name st) (comment st) (releases st)
      | CatMaintenance \<Rightarrow> insertMaintenance (release st) (name st) (comment st) (releases st)
      | CatChanges \<Rightarrow> insertChange (release st) (name st) (comment st) (releases st))"
  by (simp add: flushComment_def activeCategory_def)

lemma flushComment_empty: "comment st = [] \<Longrightarrow> flushComment st = st"
  by (simp add: flushComment_def)

lemma flushComment_absent:
  "\<forall>r \<in> set (releases st). Name r \<noteq> name st \<Longrightarrow> flushComment st = st"
  by (simp add: flushComment_def insertFix_absent insertFeature_absent insertMaintenance_absent
      insertChange_absent)

lemma releaseHeading_releases [simp]: "releases (releaseHeading l st) = releases st"
  by (simp add: releaseHeading_def)

lemma releaseHeading_other: "\<not> prefix ''## '' l \<Longrightarrow> releaseHeading l st = st"
  by (simp add: releaseHeading_def heading_prefix)

lemma releaseHeading_heading:
  "prefix ''## '' l \<Longrightarrow>
   releaseHeading l st =
     st\<lparr>release := drop 3 l, name := ''v'' @ FindString (drop 3 l), comment := [],
        fixes := False, features := False, maintenance := False\<rparr>"
  by (simp add: releaseHeading_def heading_prefix)

lemma categoryHeading_releases [simp]: "releases (categoryHeading l st) = releases st"
  by (simp add: categoryHeading_def)

lemma categoryHeading_release [simp]: "release (categoryHeading l st) = release st"
  by (simp add: categoryHeading_def)

lemma categoryHeading_name [simp]: "name (categoryHeading l st) = name st"
  by (simp add: categoryHeading_def)

lemma categoryHeading_other: "\<not> prefix ''### '' l \<Longrightarrow> categoryHeading l st = st"
  by (simp add: categoryHeading_def category_prefix)

lemma comment_categoryHeading:
  "comment (categoryHeading l st) = (if recognizedCategory l then [] else comment st)"
  by (simp add: categoryHeading_def recognizedCategory_def category_prefix)

lemma bulletLine_fields [simp]:
  "releases (bulletLine l st) = releases st"
  "release (bulletLine l st) = release st"
  "name (bulletLine l st) = name st"
  "fixes (bulletLine l st) = fixes st"
  "features (bulletLine l st) = features st"
  "maintenance (bulletLine l st) = maintenance st"
  by (simp_all add: bulletLine_def)

lemma bulletLine_other: "\<not> prefix ''* '' l \<Longrightarrow> bulletLine l st = st"
  by (simp add: bulletLine_def bullet_prefix)

lemma bulletLine_bullet: "prefix ''* '' l \<Longrightarrow> bulletLine l st = st\<lparr>comment := drop 2 l\<rparr>"
  by (simp add: bulletLine_def bullet_prefix)

lemma parseLine_blank: "TrimRight text = [] \<Longrightarrow> parseLine text st = st"
  by (simp add: parseLine_def)

lemma parseLine_Nil: "parseLine [] st = st"
  by (simp add: parseLine_blank TrimRight_Nil)

lemma parseLine_continuation:
  "TrimRight text \<noteq> [] \<Longrightarrow> \<not> isBoundary text \<Longrightarrow>
   parseLine text st = st\<lparr>comment := comment st @ [CHR 0x0A] @ TrimSpace (TrimRight text)\<rparr>"
  by (auto simp: parseLine_def Let_def isBoundary_TrimRight Suc_le_eq)

lemma parseLine_boundary:
  "isBoundary text \<Longrightarrow>
   parseLine text st =
     (if \<not> MatchString (release (releaseHeading (TrimRight text) (flushComment st)))
      then releaseHeading (TrimRight text) (flushComment st)
      else bulletLine (TrimRight text)
             (categoryHeading (TrimRight text) (releaseHeading (TrimRight text) (flushComment st))))"
  by (auto simp: parseLine_def Let_def isBoundary_TrimRight)

lemma releases_parseLine:
  "releases (parseLine text st) =
     (if isBoundary text then releases (flushComment st) else releases st)"
proof (cases "isBoundary text")
  case True
  then show ?thesis by (simp add: parseLine_boundary)
next
  case False
  then show ?thesis
    by (cases "TrimRight text = []") (simp_all add: parseLine_blank parseLine_continuation)
qed

lemma parseLine_heading:
  assumes "prefix ''## '' (TrimRight t)"
  shows "parseLine t st =
     (flushComment st)\<lparr>release := drop 3 (TrimRight t),
        name := ''v'' @ FindString (drop 3 (TrimRight t)), comment := [],
        fixes := False, features := False, maintenance := False\<rparr>"
proof -
  have "isBoundary t"
    using assms by (simp add: prefix_hash_boundary)
  then show ?thesis
    using assms heading_not_others [OF assms]
    by (simp add: parseLine_boundary releaseHeading_heading categoryHeading_other bulletLine_other)
qed

lemma parseLine_closed:
  "isBoundary t \<Longrightarrow> \<not> prefix ''## '' (TrimRight t) \<Longrightarrow> \<not> MatchString (release st) \<Longrightarrow>
   parseLine t st = flushComment st"
  by (simp add: parseLine_boundary releaseHeading_other)

lemma parseLine_open:
  "isBoundary t \<Longrightarrow> \<not> prefix ''## '' (TrimRight t) \<Longrightarrow> MatchString (release st) \<Longrightarrow>
   parseLine t st = bulletLine (TrimRight t) (categoryHeading (TrimRight t) (flushComment st))"
  by (simp add: parseLine_boundary releaseHeading_other)

lemma parseLine_category:
  assumes "prefix ''### '' (TrimRight t)"
  shows "parseLine t st =
     (if MatchString (release st) then categoryHeading (TrimRight t) (flushComment st)
      else flushComment st)"
proof -
  have "isBoundary t"
    using assms by (simp add: prefix_hash_boundary)
  then show ?thesis
    using category_not_others [OF assms]
    by (simp add: parseLine_closed parseLine_open bulletLine_other)
qed

lemma parseLine_bullet:
  assumes "prefix ''* '' (TrimRight t)"
  shows "parseLine t st =
     (if MatchString (release st) then (flushComment st)\<lparr>comment := drop 2 (TrimRight t)\<rparr>
      else flushComment st)"
proof -
  have b: "isBoundary t"
    using assms by (simp add: prefix_star_boundary)
  have "\<not> prefix ''## '' (TrimRight t)" and "\<not> prefix ''### '' (TrimRight t)"
    using assms by (auto simp: prefix_def)
  then show ?thesis
    using b assms
    by (simp add: parseLine_closed parseLine_open categoryHeading_other bulletLine_bullet)
qed

lemma parseLine_plain_boundary:
  assumes "isBoundary t" and "\<not> prefix ''## '' (TrimRight t)" and "\<not> prefix ''### '' (TrimRight t)"
    and "\<not> prefix ''* '' (TrimRight t)"
  shows "parseLine t st = flushComment st"
  using assms
  by (cases "MatchString (release st)")
    (simp_all add: parseLine_closed parseLine_open categoryHeading_other bulletLine_other)

lemma comment_parseLine:
  "comment (parseLine t st) =
     (if \<not> isBoundary t then
        (if TrimRight t = [] then comment st
         else comment st @ [CHR 0x0A] @ TrimSpace (TrimRight t))
      else if prefix ''## '' (TrimRight t) then []
      else if MatchString (release st) \<and> recognizedCategory (TrimRight t) then []
      else if MatchString (release st) \<and> prefix ''* '' (TrimRight t) then drop 2 (TrimRight t)
      else comment st)"
proof (cases "isBoundary t")
  case False
  then show ?thesis
    by (cases "TrimRight t = []") (simp_all add: parseLine_blank parseLine_continuation)
next
  case b: True
  show ?thesis
  proof (cases "prefix ''## '' (TrimRight t)")
    case True
    then show ?thesis using b by (simp add: parseLine_heading)
  next
    case nh: False
    show ?thesis
    proof (cases "prefix ''### '' (TrimRight t)")
      case True
      then show ?thesis
        using b nh category_not_others [OF True]
        by (simp add: parseLine_category comment_categoryHeading)
    next
      case nc: False
      then have nr: "\<not> recognizedCategory (TrimRight t)"
        by (simp add: recognizedCategory_def)
      show ?thesis
      proof (cases "prefix ''* '' (TrimRight t)")
        case True
        then show ?thesis using b nh nr by (simp add: parseLine_bullet)
      next
        case False
        then show ?thesis using b nh nc nr by (simp add: parseLine_plain_boundary)
      qed
    qed
  qed
qed

section \<open>The loop over the lines\<close>

lemma parseLines_append: "parseLines (ts @ us) st = parseLines us (parseLines ts st)"
  by (induction ts arbitrary: st) simp_all

lemma parseLines_snoc: "parseLines (ts @ [t]) st = parseLine t (parseLines ts st)"
  by (simp add: parseLines_append)

lemma parseLines_one_more_line:
  assumes "CHR 0x0A \<notin> set l" and "length l < MaxScanTokenSize"
  shows "fitsBuffer tok s \<Longrightarrow>
    parseLines (scanFrom tok (s @ CHR 0x0A # l)) st =
      parseLine (dropCR l) (parseLines (scanFrom tok s) st)"
proof (induction s arbitrary: tok st)
  case Nil
  have last: "scanFrom [] l = (if l = [] then [] else [dropCR l])"
    using assms by (simp add: scanFrom_last_line)
  show ?case
  proof (cases "tok = []")
    case True
    then show ?thesis
      using Nil last by (simp add: dropCR_Nil parseLine_Nil)
  next
    case False
    then show ?thesis
      using Nil last by (simp add: dropCR_Nil parseLine_Nil)
  qed
next
  case (Cons c cs)
  then show ?case
    by (cases "c = CHR 0x0A") simp_all
qed

lemma runParser_one_more_line:
  assumes "fitsBuffer [] changelog" and "CHR 0x0A \<notin> set l" and "length l < MaxScanTokenSize"
  shows "runParser (changelog @ CHR 0x0A # l) rs = parseLine (dropCR l) (runParser changelog rs)"
  using parseLines_one_more_line [OF assms(2,3) assms(1)]
  by (simp add: runParser_def scanLines_def)

section \<open>Evaluation on concrete input\<close>

text \<open>The equations that compute a run of the parser on a given changelog.\<close>

lemmas line_eval = parseLine_def Let_def TrimRight_def inCutset_def flushComment_def
  releaseHeading_def categoryHeading_def bulletLine_def MatchString_def FindString_def
  matchHere_def isDigit_def Contains_def sublist_code

lemmas scan_eval = scanLines_def MaxScanTokenSize_def dropCR_def

lemmas trim_eval = TrimSpace_def trimLeading_Nil trimLeading_Cons leadingSpace_def spaceRunes_def

section \<open>The store keeps its releases\<close>

lemma notesExtended_refl: "notesExtended x x"
  by (cases x) simp_all

lemma notesExtended_trans:
  "notesExtended x y \<Longrightarrow> notesExtended y z \<Longrightarrow> notesExtended x z"
  by (cases x; cases y; cases z) auto

lemma onlyNotesGrow_refl: "onlyNotesGrow r r"
  by (simp add: onlyNotesGrow_def notesExtended_refl)

lemma onlyNotesGrow_trans: "onlyNotesGrow a b \<Longrightarrow> onlyNotesGrow b c \<Longrightarrow> onlyNotesGrow a c"
  by (auto simp: onlyNotesGrow_def intro: notesExtended_trans)

lemma list_all2_onlyNotesGrow_refl: "list_all2 onlyNotesGrow rs rs"
  by (simp add: list_all2_same onlyNotesGrow_refl)

lemma list_all2_onlyNotesGrow_trans:
  "list_all2 onlyNotesGrow as bs \<Longrightarrow> list_all2 onlyNotesGrow bs cs \<Longrightarrow>
   list_all2 onlyNotesGrow as cs"
  by (rule list_all2_trans [where ?P1.0 = onlyNotesGrow and ?P2.0 = onlyNotesGrow])
    (auto intro: onlyNotesGrow_trans)

lemma notesExtended_notesOrNew:
  "prefix (Fixes (notesOrNew r)) (Fixes n') \<Longrightarrow> prefix (Features (notesOrNew r)) (Features n') \<Longrightarrow>
   prefix (Maintenance (notesOrNew r)) (Maintenance n') \<Longrightarrow>
   prefix (Changes (notesOrNew r)) (Changes n') \<Longrightarrow>
   notesExtended (ReleaseNotes r) (Some n')"
  by (cases "ReleaseNotes r") (simp_all add: notesOrNew_def)

lemma insertFix_grow: "list_all2 onlyNotesGrow rs (insertFix rel nm line rs)"
  by (induction rs) (simp_all add: onlyNotesGrow_def notesExtended_refl notesExtended_notesOrNew)

lemma insertFeature_grow: "list_all2 onlyNotesGrow rs (insertFeature rel nm line rs)"
  by (induction rs) (simp_all add: onlyNotesGrow_def notesExtended_refl notesExtended_notesOrNew)

lemma insertMaintenance_grow: "list_all2 onlyNotesGrow rs (insertMaintenance rel nm line rs)"
  by (induction rs) (simp_all add: onlyNotesGrow_def notesExtended_refl notesExtended_notesOrNew)

lemma insertChange_grow: "list_all2 onlyNotesGrow rs (insertChange rel nm line rs)"
  by (induction rs) (simp_all add: onlyNotesGrow_def notesExtended_refl notesExtended_notesOrNew)

lemma flushComment_grow: "list_all2 onlyNotesGrow (releases st) (releases (flushComment st))"
  by (simp add: flushComment_def insertFix_grow insertFeature_grow insertMaintenance_grow
      insertChange_grow list_all2_onlyNotesGrow_refl)

lemma parseLine_grow: "list_all2 onlyNotesGrow (releases st) (releases (parseLine text st))"
  by (simp add: releases_parseLine flushComment_grow list_all2_onlyNotesGrow_refl)

lemma parseLines_grow: "list_all2 onlyNotesGrow (releases st) (releases (parseLines ts st))"
proof (induction ts arbitrary: st)
  case Nil
  show ?case by (simp add: list_all2_onlyNotesGrow_refl)
next
  case (Cons t ts)
  have "list_all2 onlyNotesGrow (releases st) (releases (parseLine t st))"
    by (rule parseLine_grow)
  moreover have "list_all2 onlyNotesGrow (releases (parseLine t st))
      (releases (parseLines ts (parseLine t st)))"
    by (rule Cons.IH)
  ultimately show ?case
    by (simp add: list_all2_onlyNotesGrow_trans)
qed

text \<open>
  C9. For every store and every changelog, the store parseChangelog leaves has the same
  releases in the same order: position by position the \<open>Name\<close>, \<open>ZipballUrl\<close>,
  \<open>TarballUrl\<close> and \<open>Commit\<close> are those of the store it started from, no release is
  added or removed, notes that existed are still there, and each sequence of the notes
  has its old entries as a prefix. Nothing else is changed.
\<close>

theorem parseChangelog_only_notes_grow:
  "list_all2 onlyNotesGrow rs (parseChangelog changelog rs)"
  using parseLines_grow [of "initState rs" "scanLines changelog"]
  by (simp add: parseChangelog_def runParser_def initState_def)

section \<open>Dispatch of a comment block\<close>

text \<open>
  C10. When a non-empty comment is dispatched, every release of the store whose \<open>Name\<close> is
  the current version tag receives it, whatever its position and however many releases
  bear that name: the length of the store is kept, and the release at any index \<open>i\<close> with
  that name then has notes in which the sequence of the active category is the old
  sequence followed by the comment, \<open>ReleaseName\<close> is the current release heading and
  \<open>Version\<close> is the version tag.
\<close>

theorem dispatch_updates_every_match:
  assumes "comment st \<noteq> []" and "i < length (releases st)"
    and "Name (releases st ! i) = name st"
  shows "length (releases (flushComment st)) = length (releases st) \<and>
    (\<exists>n'. ReleaseNotes (releases (flushComment st) ! i) = Some n' \<and>
       categorySeq (activeCategory st) n' =
         categorySeq (activeCategory st) (notesOrNew (releases st ! i)) @ [comment st] \<and>
       ReleaseName n' = release st \<and> Version n' = name st)"
  using assms
  by (cases "activeCategory st")
    (simp_all add: flushComment_releases insertFix_map insertFeature_map
      insertMaintenance_map insertChange_map)

text \<open>
  A store with two releases named \<open>v1.0.0\<close>, the second with notes already: both receive
  the fix, and both get the new heading and version.
\<close>

theorem dispatch_updates_every_match_witness:
  "(\<exists>n'. ReleaseNotes (releases (flushComment
       \<lparr>release = ''jest 1.0.0'', name = ''v1.0.0'', comment = ''note'', fixes = True,
        features = False, maintenance = False,
        releases = [\<lparr>Name = ''v1.0.0'', ZipballUrl = ''a'', TarballUrl = [],
                      Commit = \<lparr>Sha = [], Url = []\<rparr>, ReleaseNotes = None\<rparr>,
                    \<lparr>Name = ''v1.0.0'', ZipballUrl = ''b'', TarballUrl = [],
                      Commit = \<lparr>Sha = [], Url = []\<rparr>,
                      ReleaseNotes = Some \<lparr>ReleaseName = ''old'', Version = ''v0'',
                        Fixes = [''earlier''], Features = [], Maintenance = [],
                        Changes = []\<rparr>\<rparr>]\<rparr>) ! 0) = Some n' \<and>
      Fixes n' = [''note''] \<and> ReleaseName n' = ''jest 1.0.0'' \<and> Version n' = ''v1.0.0'') \<and>
   (\<exists>n'. ReleaseNotes (releases (flushComment
       \<lparr>release = ''jest 1.0.0'', name = ''v1.0.0'', comment = ''note'', fixes = True,
        features = False, maintenance = False,
        releases = [\<lparr>Name = ''v1.0.0'', ZipballUrl = ''a'', TarballUrl = [],
                      Commit = \<lparr>Sha = [], Url = []\<rparr>, ReleaseNotes = None\<rparr>,
                    \<lparr>Name = ''v1.0.0'', ZipballUrl = ''b'', TarballUrl = [],
                      Commit = \<lparr>Sha = [], Url = []\<rparr>,
                      ReleaseNotes = Some \<lparr>ReleaseName = ''old'', Version = ''v0'',
                        Fixes = [''earlier''], Features = [], Maintenance = [],
                        Changes = []\<rparr>\<rparr>]\<rparr>) ! 1) = Some n' \<and>
      Fixes n' = [''earlier'', ''note''] \<and> ReleaseName n' = ''jest 1.0.0'' \<and>
      Version n' = ''v1.0.0'')"
  using dispatch_updates_every_match [of
       "\<lparr>release = ''jest 1.0.0'', name = ''v1.0.0'', comment = ''note'', fixes = True,
        features = False, maintenance = False,
        releases = [\<lparr>Name = ''v1.0.0'', ZipballUrl = ''a'', TarballUrl = [],
                      Commit = \<lparr>Sha = [], Url = []\<rparr>, ReleaseNotes = None\<rparr>,
                    \<lparr>Name = ''v1.0.0'', ZipballUrl = ''b'', TarballUrl = [],
                      Commit = \<lparr>Sha = [], Url = []\<rparr>,
                      ReleaseNotes = Some \<lparr>ReleaseName = ''old'', Version = ''v0'',
                        Fixes = [''earlier''], Features = [], Maintenance = [],
                        Changes = []\<rparr>\<rparr>]\<rparr>" 0]
    dispatch_updates_every_match [of
       "\<lparr>release = ''jest 1.0.0'', name = ''v1.0.0'', comment = ''note'', fixes = True,
        features = False, maintenance = False,
        releases = [\<lparr>Name = ''v1.0.0'', ZipballUrl = ''a'', TarballUrl = [],
                      Commit = \<lparr>Sha = [], Url = []\<rparr>, ReleaseNotes = None\<rparr>,
                    \<lparr>Name = ''v1.0.0'', ZipballUrl = ''b'', TarballUrl = [],
                      Commit = \<lparr>Sha = [], Url = []\<rparr>,
                      ReleaseNotes = Some \<lparr>ReleaseName = ''old'', Version = ''v0'',
                        Fixes = [''earlier''], Features = [], Maintenance = [],
                        Changes = []\<rparr>\<rparr>]\<rparr>" 1]
  by (simp add: activeCategory_def notesOrNew_def emptyNotes_def)

section \<open>The end of the input\<close>

text \<open>
  C2. For every changelog and every store, the store parseChangelog leaves is the store
  of the state in which the loop ends: the comment buffered in that state is not
  dispatched. It is dispatched only when a further line follows that begins with \<open>#\<close>
  or \<open>*\<close>: for a changelog \<open>c\<close> whose lines fit the scanner's buffer and any one further
  line \<open>l\<close>, the run on \<open>c\<close>, a newline and \<open>l\<close> leaves the store of the run on \<open>c\<close> with
  the comment pending there dispatched when \<open>l\<close> begins with \<open>#\<close> or \<open>*\<close>, and exactly the
  store of the run on \<open>c\<close> when it does not. Equally, the store after the last line is
  the one before it, with at most the comment buffered before that line dispatched.
\<close>

theorem pending_comment_not_flushed_at_end:
  assumes "fitsBuffer [] changelog" and "CHR 0x0A \<notin> set l" and "length l < MaxScanTokenSize"
  shows "parseChangelog changelog rs = releases (runParser changelog rs) \<and>
    parseChangelog (changelog @ CHR 0x0A # l) rs =
      (if isBoundary l then releases (flushComment (runParser changelog rs))
       else parseChangelog changelog rs) \<and>
    parseChangelog changelog rs =
      (if scanLines changelog = [] then rs
       else if isBoundary (last (scanLines changelog))
       then releases (flushComment (parseLines (butlast (scanLines changelog)) (initState rs)))
       else releases (parseLines (butlast (scanLines changelog)) (initState rs)))"
proof (intro conjI)
  show "parseChangelog changelog rs = releases (runParser changelog rs)"
    by (simp add: parseChangelog_def)
  show "parseChangelog (changelog @ CHR 0x0A # l) rs =
      (if isBoundary l then releases (flushComment (runParser changelog rs))
       else parseChangelog changelog rs)"
    using runParser_one_more_line [OF assms]
    by (simp add: parseChangelog_def releases_parseLine isBoundary_dropCR)
  show "parseChangelog changelog rs =
      (if scanLines changelog = [] then rs
       else if isBoundary (last (scanLines changelog))
       then releases (flushComment (parseLines (butlast (scanLines changelog)) (initState rs)))
       else releases (parseLines (butlast (scanLines changelog)) (initState rs)))"
  proof (cases "scanLines changelog = []")
    case True
    then show ?thesis
      by (simp add: parseChangelog_def runParser_def initState_def)
  next
    case False
    then have "scanLines changelog = butlast (scanLines changelog) @ [last (scanLines changelog)]"
      by simp
    then have "parseLines (scanLines changelog) (initState rs) =
        parseLine (last (scanLines changelog))
          (parseLines (butlast (scanLines changelog)) (initState rs))"
      using parseLines_snoc by metis
    then show ?thesis
      using False by (simp add: parseChangelog_def runParser_def releases_parseLine)
  qed
qed

text \<open>
  A release heading and one bullet, against a store that holds the release: the loop
  ends with the bullet buffered and the store as it was; with the line \<open># end\<close> after it
  the bullet reaches the release.
\<close>

theorem pending_comment_not_flushed_at_end_witness:
  "comment (runParser ''## jest 1.2.3\<newline>* lost''
     [\<lparr>Name = ''v1.2.3'', ZipballUrl = [], TarballUrl = [],
        Commit = \<lparr>Sha = [], Url = []\<rparr>, ReleaseNotes = None\<rparr>]) = ''lost'' \<and>
   parseChangelog ''## jest 1.2.3\<newline>* lost''
     [\<lparr>Name = ''v1.2.3'', ZipballUrl = [], TarballUrl = [],
        Commit = \<lparr>Sha = [], Url = []\<rparr>, ReleaseNotes = None\<rparr>] =
     [\<lparr>Name = ''v1.2.3'', ZipballUrl = [], TarballUrl = [],
        Commit = \<lparr>Sha = [], Url = []\<rparr>, ReleaseNotes = None\<rparr>] \<and>
   parseChangelog (''## jest 1.2.3\<newline>* lost'' @ CHR 0x0A # ''# end'')
     [\<lparr>Name = ''v1.2.3'', ZipballUrl = [], TarballUrl = [],
        Commit = \<lparr>Sha = [], Url = []\<rparr>, ReleaseNotes = None\<rparr>] =
     [\<lparr>Name = ''v1.2.3'', ZipballUrl = [], TarballUrl = [],
        Commit = \<lparr>Sha = [], Url = []\<rparr>,
        ReleaseNotes = Some \<lparr>ReleaseName = ''jest 1.2.3'', Version = ''v1.2.3'', Fixes = [],
          Features = [], Maintenance = [], Changes = [''lost'']\<rparr>\<rparr>]"
proof -
  have run: "runParser ''## jest 1.2.3\<newline>* lost''
     [\<lparr>Name = ''v1.2.3'', ZipballUrl = [], TarballUrl = [],
        Commit = \<lparr>Sha = [], Url = []\<rparr>, ReleaseNotes = None\<rparr>] =
     \<lparr>release = ''jest 1.2.3'', name = ''v1.2.3'', comment = ''lost'', fixes = False,
      features = False, maintenance = False,
      releases = [\<lparr>Name = ''v1.2.3'', ZipballUrl = [], TarballUrl = [],
        Commit = \<lparr>Sha = [], Url = []\<rparr>, ReleaseNotes = None\<rparr>]\<rparr>"
    by (simp add: runParser_def scan_eval initState_def line_eval)
  have fits: "fitsBuffer [] ''## jest 1.2.3\<newline>* lost''"
    by (simp add: MaxScanTokenSize_def)
  have l: "CHR 0x0A \<notin> set ''# end''" "length ''# end'' < MaxScanTokenSize"
    by (simp_all add: MaxScanTokenSize_def)
  show ?thesis
    using pending_comment_not_flushed_at_end [OF fits l, of
      "[\<lparr>Name = ''v1.2.3'', ZipballUrl = [], TarballUrl = [],
        Commit = \<lparr>Sha = [], Url = []\<rparr>, ReleaseNotes = None\<rparr>]"]
    by (simp add: run isBoundary_def flushComment_def notesOrNew_def emptyNotes_def)
qed

section \<open>A flushed comment stays in the buffer\<close>

text \<open>
  C3. The comment after a line, for every line and state: a line that begins neither with
  \<open>#\<close> nor with \<open>*\<close> leaves it (a blank line) or appends to it; a release heading empties
  it; under a release heading that holds a version, a recognised category heading empties
  it and a bullet line replaces it by the text of the bullet; every other line that
  begins with \<open>#\<close> or \<open>*\<close> leaves it as it is, although such a line has just dispatched
  it. So a stale comment is dispatched again: after a release heading, the bullet
  \<open>* stale\<close> and the two lines \<open>#x\<close> and \<open>#y\<close>, the text \<open>stale\<close> has been appended twice
  to the changes of every release named \<open>v24.0.0\<close>.
\<close>

theorem comment_survives_flush:
  "comment (parseLine t st) =
     (if \<not> isBoundary t then
        (if TrimRight t = [] then comment st
         else comment st @ [CHR 0x0A] @ TrimSpace (TrimRight t))
      else if prefix ''## '' (TrimRight t) then []
      else if MatchString (release st) \<and> recognizedCategory (TrimRight t) then []
      else if MatchString (release st) \<and> prefix ''* '' (TrimRight t) then drop 2 (TrimRight t)
      else comment st) \<and>
   releases (parseLine t st) = (if isBoundary t then releases (flushComment st) else releases st) \<and>
   parseChangelog ''## jest 24.0.0\<newline>* stale\<newline>#x\<newline>#y'' rs =
     insertChange ''jest 24.0.0'' ''v24.0.0'' ''stale''
       (insertChange ''jest 24.0.0'' ''v24.0.0'' ''stale'' rs)"
proof (intro conjI)
  show "parseChangelog ''## jest 24.0.0\<newline>* stale\<newline>#x\<newline>#y'' rs =
     insertChange ''jest 24.0.0'' ''v24.0.0'' ''stale''
       (insertChange ''jest 24.0.0'' ''v24.0.0'' ''stale'' rs)"
    by (simp add: parseChangelog_def runParser_def scan_eval initState_def line_eval
        del: insertChange.simps)
qed (rule comment_parseLine releases_parseLine)+

text \<open>The same run against a store that holds the release: its changes are \<open>stale\<close>, twice.\<close>

theorem comment_survives_flush_witness:
  "parseChangelog ''## jest 24.0.0\<newline>* stale\<newline>#x\<newline>#y''
     [\<lparr>Name = ''v24.0.0'', ZipballUrl = [], TarballUrl = [],
        Commit = \<lparr>Sha = [], Url = []\<rparr>, ReleaseNotes = None\<rparr>] =
     [\<lparr>Name = ''v24.0.0'', ZipballUrl = [], TarballUrl = [],
        Commit = \<lparr>Sha = [], Url = []\<rparr>,
        ReleaseNotes = Some \<lparr>ReleaseName = ''jest 24.0.0'', Version = ''v24.0.0'', Fixes = [],
          Features = [], Maintenance = [], Changes = [''stale'', ''stale'']\<rparr>\<rparr>] \<and>
   comment (parseLine ''#x''
     \<lparr>release = ''jest 24.0.0'', name = ''v24.0.0'', comment = ''stale'', fixes = False,
      features = False, maintenance = False, releases = []\<rparr>) = ''stale''"
  using comment_survives_flush [of "''#x''"
     "\<lparr>release = ''jest 24.0.0'', name = ''v24.0.0'', comment = ''stale'', fixes = False,
      features = False, maintenance = False, releases = []\<rparr>"
     "[\<lparr>Name = ''v24.0.0'', ZipballUrl = [], TarballUrl = [],
        Commit = \<lparr>Sha = [], Url = []\<rparr>, ReleaseNotes = None\<rparr>]"]
  by (simp add: notesOrNew_def emptyNotes_def isBoundary_def TrimRight_def inCutset_def
      recognizedCategory_def)

section \<open>Release headings\<close>

text \<open>
  C4. For every line that, trimmed on the right as the loop trims it, begins with \<open>##\<close>
  and a space, and every state: after the line the current release heading is the rest of
  the line, the version tag is \<open>v\<close> followed by what the pattern finds in that rest, the
  pending comment is empty and the active category is the default, Changes (the three
  flags are off). What the pattern finds is the first substring made of digits, a dot,
  digits, a dot and digits, taken as long as it goes; when the rest holds no such
  substring the tag is exactly \<open>v\<close>.
\<close>

theorem release_heading_resets:
  assumes "prefix ''## '' (TrimRight t)"
  shows "release (parseLine t st) = drop 3 (TrimRight t) \<and>
    name (parseLine t st) = ''v'' @ FindString (drop 3 (TrimRight t)) \<and>
    (\<forall>m. firstVersion (drop 3 (TrimRight t)) m \<longrightarrow> name (parseLine t st) = ''v'' @ m) \<and>
    (\<not> hasVersion (drop 3 (TrimRight t)) \<longrightarrow> name (parseLine t st) = ''v'') \<and>
    (hasVersion (drop 3 (TrimRight t)) \<longrightarrow>
       firstVersion (drop 3 (TrimRight t)) (FindString (drop 3 (TrimRight t)))) \<and>
    comment (parseLine t st) = [] \<and>
    activeCategory (parseLine t st) = CatChanges \<and>
    \<not> fixes (parseLine t st) \<and> \<not> features (parseLine t st) \<and> \<not> maintenance (parseLine t st)"
proof -
  have "hasVersion (drop 3 (TrimRight t)) \<longrightarrow>
      firstVersion (drop 3 (TrimRight t)) (FindString (drop 3 (TrimRight t)))"
  proof
    assume "hasVersion (drop 3 (TrimRight t))"
    then obtain m where "Find (drop 3 (TrimRight t)) = Some m"
      using Find_None_iff [of "drop 3 (TrimRight t)"] by auto
    then show "firstVersion (drop 3 (TrimRight t)) (FindString (drop 3 (TrimRight t)))"
      using Find_Some_iff [of "drop 3 (TrimRight t)" m] by (simp add: FindString_def)
  qed
  then show ?thesis
    using assms
    by (simp add: parseLine_heading activeCategory_def FindString_first FindString_no_version)
qed

text \<open>
  The heading of release 24.0.0 read in a state with a pending comment and the category
  Fixes, and a heading without a version read in the same state.
\<close>

theorem release_heading_resets_witness:
  "release (parseLine ''## jest 24.0.0  ''
     \<lparr>release = ''jest 25.0.0'', name = ''v25.0.0'', comment = ''old'', fixes = True,
      features = False, maintenance = False, releases = []\<rparr>) = ''jest 24.0.0'' \<and>
   name (parseLine ''## jest 24.0.0  ''
     \<lparr>release = ''jest 25.0.0'', name = ''v25.0.0'', comment = ''old'', fixes = True,
      features = False, maintenance = False, releases = []\<rparr>) = ''v24.0.0'' \<and>
   comment (parseLine ''## jest 24.0.0  ''
     \<lparr>release = ''jest 25.0.0'', name = ''v25.0.0'', comment = ''old'', fixes = True,
      features = False, maintenance = False, releases = []\<rparr>) = [] \<and>
   activeCategory (parseLine ''## jest 24.0.0  ''
     \<lparr>release = ''jest 25.0.0'', name = ''v25.0.0'', comment = ''old'', fixes = True,
      features = False, maintenance = False, releases = []\<rparr>) = CatChanges \<and>
   name (parseLine ''## master''
     \<lparr>release = ''jest 25.0.0'', name = ''v25.0.0'', comment = ''old'', fixes = True,
      features = False, maintenance = False, releases = []\<rparr>) = ''v'' \<and>
   firstVersion ''jest 24.0.0'' ''24.0.0'' \<and> \<not> hasVersion ''master''"
proof -
  have t1: "TrimRight ''## jest 24.0.0  '' = ''## jest 24.0.0''"
    and t2: "TrimRight ''## master'' = ''## master''"
    by (simp_all add: TrimRight_def inCutset_def)
  have f1: "FindString ''jest 24.0.0'' = ''24.0.0''" and f2: "FindString ''master'' = []"
    by (simp_all add: FindString_def matchHere_def isDigit_def)
  have v1: "firstVersion ''jest 24.0.0'' ''24.0.0''"
    unfolding Find_Some_iff [symmetric] by (simp add: matchHere_def isDigit_def)
  have v2: "\<not> hasVersion ''master''"
    unfolding Find_None_iff [symmetric] by (simp add: matchHere_def isDigit_def)
  show ?thesis
    using release_heading_resets [of "''## jest 24.0.0  ''"
        "\<lparr>release = ''jest 25.0.0'', name = ''v25.0.0'', comment = ''old'', fixes = True,
          features = False, maintenance = False, releases = []\<rparr>"]
      release_heading_resets [of "''## master''"
        "\<lparr>release = ''jest 25.0.0'', name = ''v25.0.0'', comment = ''old'', fixes = True,
          features = False, maintenance = False, releases = []\<rparr>"]
    by (simp add: t1 t2 f1 f2 v1 v2)
qed

section \<open>Category headings\<close>

text \<open>
  C5, as the code has it. For every line that, trimmed on the right, begins with \<open>###\<close>
  and a space, read while the current release heading holds a version: the line is
  searched for \<open>Fixes\<close>, then \<open>Features\<close>, then \<open>Chore & Maintenance\<close>; the first of them
  that occurs sets the active category and empties the pending comment; when none occurs
  the line does no more than dispatch the pending comment, so the flags and the comment
  stay. Read while the current release heading holds no version (line 175), such a line
  does no more than dispatch the pending comment either, whatever keyword it holds.
\<close>

theorem category_heading_under_version:
  assumes "prefix ''### '' (TrimRight t)"
  shows "(MatchString (release st) \<longrightarrow>
      (Contains (TrimRight t) ''Fixes'' \<longrightarrow>
         activeCategory (parseLine t st) = CatFixes \<and> comment (parseLine t st) = []) \<and>
      (\<not> Contains (TrimRight t) ''Fixes'' \<and> Contains (TrimRight t) ''Features'' \<longrightarrow>
         activeCategory (parseLine t st) = CatFeatures \<and> comment (parseLine t st) = []) \<and>
      (\<not> Contains (TrimRight t) ''Fixes'' \<and> \<not> Contains (TrimRight t) ''Features'' \<and>
       Contains (TrimRight t) ''Chore & Maintenance'' \<longrightarrow>
         activeCategory (parseLine t st) = CatMaintenance \<and> comment (parseLine t st) = []) \<and>
      (\<not> Contains (TrimRight t) ''Fixes'' \<and> \<not> Contains (TrimRight t) ''Features'' \<and>
       \<not> Contains (TrimRight t) ''Chore & Maintenance'' \<longrightarrow>
         parseLine t st = flushComment st)) \<and>
    (\<not> MatchString (release st) \<longrightarrow> parseLine t st = flushComment st) \<and>
    activeCategory (flushComment st) = activeCategory st \<and>
    comment (flushComment st) = comment st \<and>
    MatchString (release st) = hasVersion (release st)"
  using assms
  by (simp add: parseLine_category categoryHeading_def category_prefix activeCategory_def
      MatchString_iff)

text \<open>
  Under the heading of release 24.0.0, with a comment pending and the category Features:
  a heading with two keywords takes the first in the order of the tests, the maintenance
  heading is recognised, and a heading without keyword changes neither.
\<close>

theorem category_heading_under_version_witness:
  "activeCategory (parseLine ''### Features and Fixes''
     \<lparr>release = ''jest 24.0.0'', name = ''v24.0.0'', comment = ''old'', fixes = False,
      features = True, maintenance = False, releases = []\<rparr>) = CatFixes \<and>
   comment (parseLine ''### Features and Fixes''
     \<lparr>release = ''jest 24.0.0'', name = ''v24.0.0'', comment = ''old'', fixes = False,
      features = True, maintenance = False, releases = []\<rparr>) = [] \<and>
   activeCategory (parseLine ''### Chore & Maintenance''
     \<lparr>release = ''jest 24.0.0'', name = ''v24.0.0'', comment = ''old'', fixes = False,
      features = True, maintenance = False, releases = []\<rparr>) = CatMaintenance \<and>
   activeCategory (parseLine ''### Performance''
     \<lparr>release = ''jest 24.0.0'', name = ''v24.0.0'', comment = ''old'', fixes = False,
      features = True, maintenance = False, releases = []\<rparr>) = CatFeatures \<and>
   comment (parseLine ''### Performance''
     \<lparr>release = ''jest 24.0.0'', name = ''v24.0.0'', comment = ''old'', fixes = False,
      features = True, maintenance = False, releases = []\<rparr>) = ''old''"
proof -
  have tr: "TrimRight ''### Features and Fixes'' = ''### Features and Fixes''"
    "TrimRight ''### Chore & Maintenance'' = ''### Chore & Maintenance''"
    "TrimRight ''### Performance'' = ''### Performance''"
    by (simp_all add: TrimRight_def inCutset_def)
  have ver: "MatchString ''jest 24.0.0''"
    by (simp add: MatchString_def matchHere_def isDigit_def)
  have kw: "Contains ''### Features and Fixes'' ''Fixes''"
    "\<not> Contains ''### Chore & Maintenance'' ''Fixes''"
    "\<not> Contains ''### Chore & Maintenance'' ''Features''"
    "Contains ''### Chore & Maintenance'' ''Chore & Maintenance''"
    "\<not> Contains ''### Performance'' ''Fixes''"
    "\<not> Contains ''### Performance'' ''Features''"
    "\<not> Contains ''### Performance'' ''Chore & Maintenance''"
    by (simp_all add: Contains_def sublist_code)
  show ?thesis
    using category_heading_under_version [of "''### Features and Fixes''"
        "\<lparr>release = ''jest 24.0.0'', name = ''v24.0.0'', comment = ''old'', fixes = False,
          features = True, maintenance = False, releases = []\<rparr>"]
      category_heading_under_version [of "''### Chore & Maintenance''"
        "\<lparr>release = ''jest 24.0.0'', name = ''v24.0.0'', comment = ''old'', fixes = False,
          features = True, maintenance = False, releases = []\<rparr>"]
      category_heading_under_version [of "''### Performance''"
        "\<lparr>release = ''jest 24.0.0'', name = ''v24.0.0'', comment = ''old'', fixes = False,
          features = True, maintenance = False, releases = []\<rparr>"]
    by (simp add: tr ver kw activeCategory_def)
qed

text \<open>
  C5 as it is stated fails where no release heading with a version has been read: the
  changelog of the two lines \<open>note\<close> and \<open>### Fixes\<close> ends with the category still
  Changes and the comment still pending.
\<close>

theorem category_heading_ignored_without_version:
  "scanLines ''note\<newline>### Fixes'' = [''note'', ''### Fixes''] \<and>
   prefix ''### '' (TrimRight ''### Fixes'') \<and>
   Contains (TrimRight ''### Fixes'') ''Fixes'' \<and>
   activeCategory (runParser ''note\<newline>### Fixes'' []) = CatChanges \<and>
   comment (runParser ''note\<newline>### Fixes'' []) = ''\<newline>note''"
  by (simp add: runParser_def scan_eval initState_def line_eval trim_eval activeCategory_def)

section \<open>Changelogs without a release heading\<close>

lemma parseLine_no_heading:
  assumes "\<not> prefix ''## '' (TrimRight t)" and "release st = []" and "name st = []"
    and "\<forall>r \<in> set (releases st). Name r \<noteq> []"
  shows "release (parseLine t st) = [] \<and> name (parseLine t st) = [] \<and>
    releases (parseLine t st) = releases st"
proof (cases "isBoundary t")
  case True
  have "flushComment st = st"
    using assms(3,4) by (simp add: flushComment_absent)
  then have "parseLine t st = st"
    using True assms(1,2) by (simp add: parseLine_boundary releaseHeading_other MatchString_Nil)
  then show ?thesis
    using assms by simp
next
  case False
  then show ?thesis
    using assms by (cases "TrimRight t = []") (simp_all add: parseLine_blank parseLine_continuation)
qed

lemma parseLines_no_heading:
  assumes "\<forall>t \<in> set ts. \<not> prefix ''## '' (TrimRight t)" and "release st = []" and "name st = []"
    and "\<forall>r \<in> set (releases st). Name r \<noteq> []"
  shows "releases (parseLines ts st) = releases st"
  using assms
proof (induction ts arbitrary: st)
  case Nil
  show ?case by simp
next
  case (Cons t ts)
  have step: "release (parseLine t st) = [] \<and> name (parseLine t st) = [] \<and>
      releases (parseLine t st) = releases st"
    using Cons.prems by (intro parseLine_no_heading) simp_all
  then have "releases (parseLines ts (parseLine t st)) = releases (parseLine t st)"
    using Cons.prems by (intro Cons.IH) simp_all
  with step show ?case by simp
qed

text \<open>
  C6, as the code has it. For every store in which no release has the empty string as
  its \<open>Name\<close>, and every changelog none of whose lines begins with \<open>##\<close> and a space,
  parseChangelog leaves the store exactly as it was. Without a release heading the
  version tag stays the empty string, and the text before the first heading is still
  dispatched under that tag.
\<close>

theorem no_release_heading_store_unchanged:
  assumes "\<forall>r \<in> set rs. Name r \<noteq> []"
    and "\<forall>t \<in> set (scanLines changelog). \<not> prefix ''## '' t"
  shows "parseChangelog changelog rs = rs"
proof -
  have "\<forall>t \<in> set (scanLines changelog). \<not> prefix ''## '' (TrimRight t)"
    using assms(2) prefix_TrimRight by blast
  then have "releases (parseLines (scanLines changelog) (initState rs)) = releases (initState rs)"
    using assms(1) by (intro parseLines_no_heading) (simp_all add: initState_def)
  then show ?thesis
    by (simp add: parseChangelog_def runParser_def initState_def)
qed

text \<open>A title, a sentence and a bullet, no release heading, against a store of one release.\<close>

theorem no_release_heading_store_unchanged_witness:
  "scanLines ''# Changelog\<newline>All notable changes.\<newline>* bullet\<newline>### Fixes'' =
     [''# Changelog'', ''All notable changes.'', ''* bullet'', ''### Fixes''] \<and>
   parseChangelog ''# Changelog\<newline>All notable changes.\<newline>* bullet\<newline>### Fixes''
     [\<lparr>Name = ''v24.0.0'', ZipballUrl = [], TarballUrl = [],
        Commit = \<lparr>Sha = [], Url = []\<rparr>, ReleaseNotes = None\<rparr>] =
     [\<lparr>Name = ''v24.0.0'', ZipballUrl = [], TarballUrl = [],
        Commit = \<lparr>Sha = [], Url = []\<rparr>, ReleaseNotes = None\<rparr>]"
proof -
  have sc: "scanLines ''# Changelog\<newline>All notable changes.\<newline>* bullet\<newline>### Fixes'' =
     [''# Changelog'', ''All notable changes.'', ''* bullet'', ''### Fixes'']"
    by (simp add: scan_eval)
  show ?thesis
    using no_release_heading_store_unchanged [of
      "[\<lparr>Name = ''v24.0.0'', ZipballUrl = [], TarballUrl = [],
        Commit = \<lparr>Sha = [], Url = []\<rparr>, ReleaseNotes = None\<rparr>]"
      "''# Changelog\<newline>All notable changes.\<newline>* bullet\<newline>### Fixes''"]
    by (simp add: sc)
qed

text \<open>
  C6 as it is stated fails for a store that holds a release without a name: of the two
  lines \<open>preamble\<close> and \<open># Changelog\<close>, neither a release heading, the second dispatches
  the first to that release.
\<close>

theorem preamble_reaches_unnamed_release:
  "scanLines ''preamble\<newline># Changelog'' = [''preamble'', ''# Changelog''] \<and>
   \<not> prefix ''## '' ''preamble'' \<and> \<not> prefix ''## '' ''# Changelog'' \<and>
   parseChangelog ''preamble\<newline># Changelog''
     [\<lparr>Name = [], ZipballUrl = ''z'', TarballUrl = ''t'',
        Commit = \<lparr>Sha = ''s'', Url = ''u''\<rparr>, ReleaseNotes = None\<rparr>] =
     [\<lparr>Name = [], ZipballUrl = ''z'', TarballUrl = ''t'',
        Commit = \<lparr>Sha = ''s'', Url = ''u''\<rparr>,
        ReleaseNotes = Some \<lparr>ReleaseName = [], Version = [], Fixes = [], Features = [],
          Maintenance = [], Changes = [''\<newline>preamble'']\<rparr>\<rparr>]"
  by (simp add: parseChangelog_def runParser_def scan_eval initState_def line_eval trim_eval
      notesOrNew_def emptyNotes_def)

section \<open>A bullet of two lines\<close>

lemma TrimSpace_second: "TrimSpace ''second line'' = ''second line''"
  by (simp add: trim_eval)

text \<open>
  C7, as the code has it. Read while the current release heading holds a version (line
  175 lets only such lines reach the bullet test of line 198), the bullet line
  \<open>* first line\<close> followed by the line \<open>second line\<close> leaves one pending comment, the
  text \<open>first line\<close>, a newline and \<open>second line\<close>; the second line dispatches nothing,
  and it gives the same comment when it is written with blanks around it. The next line
  that begins with \<open>#\<close> or \<open>*\<close> dispatches that comment, once. In the changelog of the
  heading of release 24.0.0, these two lines and a further heading, every release named
  \<open>v24.0.0\<close> gets that one entry.
\<close>

theorem multi_line_bullet:
  assumes "MatchString (release st)" and "isBoundary t"
  shows "comment (parseLine ''second line'' (parseLine ''* first line'' st)) =
      ''first line\<newline>second line'' \<and>
    comment (parseLine ''  second line  '' (parseLine ''* first line'' st)) =
      ''first line\<newline>second line'' \<and>
    releases (parseLine ''second line'' (parseLine ''* first line'' st)) =
      releases (parseLine ''* first line'' st) \<and>
    releases (parseLine t (parseLine ''second line'' (parseLine ''* first line'' st))) =
      releases (flushComment ((flushComment st)\<lparr>comment := ''first line\<newline>second line''\<rparr>)) \<and>
    parseChangelog ''## jest 24.0.0\<newline>* first line\<newline>second line\<newline>## jest 23.0.0'' rs =
      insertChange ''jest 24.0.0'' ''v24.0.0'' ''first line\<newline>second line'' rs"
proof (intro conjI)
  have tr1: "TrimRight ''* first line'' = ''* first line''"
    by (simp add: TrimRight_def inCutset_def)
  have tr2: "TrimRight ''second line'' = ''second line''"
    and tr3: "TrimRight ''  second line  '' = ''  second line''"
    by (simp_all add: TrimRight_def inCutset_def)
  have ts3: "TrimSpace ''  second line'' = ''second line''"
    by (simp add: trim_eval)
  have one: "parseLine ''* first line'' st = (flushComment st)\<lparr>comment := ''first line''\<rparr>"
    using assms(1) parseLine_bullet [of "''* first line''" st] by (simp add: tr1)
  have two: "parseLine ''second line'' (parseLine ''* first line'' st) =
      (flushComment st)\<lparr>comment := ''first line\<newline>second line''\<rparr>"
    using parseLine_continuation [of "''second line''"]
    by (simp add: one tr2 isBoundary_def TrimSpace_second)
  have padded: "parseLine ''  second line  '' (parseLine ''* first line'' st) =
      (flushComment st)\<lparr>comment := ''first line\<newline>second line''\<rparr>"
    using parseLine_continuation [of "''  second line  ''"]
    by (simp add: one tr3 isBoundary_def ts3)
  show "comment (parseLine ''second line'' (parseLine ''* first line'' st)) =
      ''first line\<newline>second line''"
    by (simp add: two)
  show "comment (parseLine ''  second line  '' (parseLine ''* first line'' st)) =
      ''first line\<newline>second line''"
    by (simp add: padded)
  show "releases (parseLine ''second line'' (parseLine ''* first line'' st)) =
      releases (parseLine ''* first line'' st)"
    by (simp only: two) (simp add: one)
  show "releases (parseLine t (parseLine ''second line'' (parseLine ''* first line'' st))) =
      releases (flushComment ((flushComment st)\<lparr>comment := ''first line\<newline>second line''\<rparr>))"
    using assms(2) by (simp add: two releases_parseLine)
  show "parseChangelog ''## jest 24.0.0\<newline>* first line\<newline>second line\<newline>## jest 23.0.0'' rs =
      insertChange ''jest 24.0.0'' ''v24.0.0'' ''first line\<newline>second line'' rs"
    by (simp add: parseChangelog_def runParser_def scan_eval initState_def line_eval
        TrimSpace_second del: insertChange.simps)
qed

text \<open>
  The two lines read right after the heading of release 24.0.0, then the heading of
  release 23.0.0, against a store that holds release 24.0.0: one entry in its changes.
\<close>

theorem multi_line_bullet_witness:
  "comment (parseLine ''second line'' (parseLine ''* first line''
     \<lparr>release = ''jest 24.0.0'', name = ''v24.0.0'', comment = [], fixes = False,
      features = False, maintenance = False,
      releases = [\<lparr>Name = ''v24.0.0'', ZipballUrl = [], TarballUrl = [],
        Commit = \<lparr>Sha = [], Url = []\<rparr>, ReleaseNotes = None\<rparr>]\<rparr>)) =
     ''first line\<newline>second line'' \<and>
   releases (parseLine ''## jest 23.0.0'' (parseLine ''second line'' (parseLine ''* first line''
     \<lparr>release = ''jest 24.0.0'', name = ''v24.0.0'', comment = [], fixes = False,
      features = False, maintenance = False,
      releases = [\<lparr>Name = ''v24.0.0'', ZipballUrl = [], TarballUrl = [],
        Commit = \<lparr>Sha = [], Url = []\<rparr>, ReleaseNotes = None\<rparr>]\<rparr>))) =
     [\<lparr>Name = ''v24.0.0'', ZipballUrl = [], TarballUrl = [],
        Commit = \<lparr>Sha = [], Url = []\<rparr>,
        ReleaseNotes = Some \<lparr>ReleaseName = ''jest 24.0.0'', Version = ''v24.0.0'', Fixes = [],
          Features = [], Maintenance = [],
          Changes = [''first line\<newline>second line'']\<rparr>\<rparr>]"
proof -
  have ver: "MatchString ''jest 24.0.0''"
    by (simp add: MatchString_def matchHere_def isDigit_def)
  have b: "isBoundary ''## jest 23.0.0''"
    by (simp add: isBoundary_def)
  show ?thesis
    using multi_line_bullet [of
      "\<lparr>release = ''jest 24.0.0'', name = ''v24.0.0'', comment = [], fixes = False,
        features = False, maintenance = False,
        releases = [\<lparr>Name = ''v24.0.0'', ZipballUrl = [], TarballUrl = [],
          Commit = \<lparr>Sha = [], Url = []\<rparr>, ReleaseNotes = None\<rparr>]\<rparr>" "''## jest 23.0.0''"]
    by (simp add: ver b flushComment_def notesOrNew_def emptyNotes_def)
qed

text \<open>
  C7 as it is stated fails where no release heading with a version has been read: the
  bullet line is then skipped at line 175, and of the two lines only the second is
  buffered. The run on the two lines alone ends with the comment a newline and
  \<open>second line\<close>; under the heading \<open>## master\<close>, whose version tag is \<open>v\<close>, that text is
  what the next heading dispatches to a release named \<open>v\<close>.
\<close>

theorem bullet_skipped_without_version:
  "scanLines ''* first line\<newline>second line'' = [''* first line'', ''second line''] \<and>
   comment (runParser ''* first line\<newline>second line'' []) = ''\<newline>second line'' \<and>
   scanLines ''## master\<newline>* first line\<newline>second line\<newline>## jest 24.0.0'' =
     [''## master'', ''* first line'', ''second line'', ''## jest 24.0.0''] \<and>
   parseChangelog ''## master\<newline>* first line\<newline>second line\<newline>## jest 24.0.0''
     [\<lparr>Name = ''v'', ZipballUrl = [], TarballUrl = [],
        Commit = \<lparr>Sha = [], Url = []\<rparr>, ReleaseNotes = None\<rparr>] =
     [\<lparr>Name = ''v'', ZipballUrl = [], TarballUrl = [],
        Commit = \<lparr>Sha = [], Url = []\<rparr>,
        ReleaseNotes = Some \<lparr>ReleaseName = ''master'', Version = ''v'', Fixes = [],
          Features = [], Maintenance = [], Changes = [''\<newline>second line'']\<rparr>\<rparr>]"
  by (simp add: parseChangelog_def runParser_def scan_eval initState_def line_eval
      TrimSpace_second notesOrNew_def emptyNotes_def)

section \<open>The changelog of three lines\<close>

lemma three_lines_state:
  "parseLines [''## jest 24.0.0'', ''### Fixes'', ''* fixed the thing''] (initState rs) =
     \<lparr>release = ''jest 24.0.0'', name = ''v24.0.0'', comment = ''fixed the thing'',
      fixes = True, features = False, maintenance = False, releases = rs\<rparr>"
  by (simp add: initState_def line_eval)

lemma three_lines_scan:
  "scanLines ''## jest 24.0.0\<newline>### Fixes\<newline>* fixed the thing'' =
    [''## jest 24.0.0'', ''### Fixes'', ''* fixed the thing'']"
  by (simp add: scan_eval)

lemma three_lines_run:
  "runParser ''## jest 24.0.0\<newline>### Fixes\<newline>* fixed the thing'' rs =
     \<lparr>release = ''jest 24.0.0'', name = ''v24.0.0'', comment = ''fixed the thing'',
      fixes = True, features = False, maintenance = False, releases = rs\<rparr>"
  by (simp only: runParser_def three_lines_scan three_lines_state)

lemma three_lines_fit: "fitsBuffer [] ''## jest 24.0.0\<newline>### Fixes\<newline>* fixed the thing''"
  by (simp add: MaxScanTokenSize_def)

text \<open>
  C1, as the code has it. The three lines \<open>## jest 24.0.0\<close>, \<open>### Fixes\<close> and
  \<open>* fixed the thing\<close>, followed by one more line that begins with \<open>#\<close> or \<open>*\<close> and is
  shorter than the 65536 bytes of the scanner's buffer (a longer one is never delivered to
  the loop): the run appends the one entry \<open>fixed the thing\<close> to the fixes of every
  release named \<open>v24.0.0\<close>, sets its \<open>ReleaseName\<close> to \<open>jest 24.0.0\<close> and its \<open>Version\<close>
  to \<open>v24.0.0\<close>, and changes nothing else. When the store holds no release of that name,
  the run leaves the store as it was, with the further line and without it.
\<close>

theorem three_lines_then_boundary:
  assumes "isBoundary l" and "CHR 0x0A \<notin> set l" and "length l < MaxScanTokenSize"
  shows "parseChangelog (''## jest 24.0.0\<newline>### Fixes\<newline>* fixed the thing'' @ CHR 0x0A # l) rs =
      map (\<lambda>r. if Name r = ''v24.0.0''
            then r\<lparr>ReleaseNotes := Some ((notesOrNew r)\<lparr>ReleaseName := ''jest 24.0.0'',
                   Version := ''v24.0.0'', Fixes := Fixes (notesOrNew r) @ [''fixed the thing'']\<rparr>)\<rparr>
            else r) rs \<and>
    ((\<forall>r \<in> set rs. Name r \<noteq> ''v24.0.0'') \<longrightarrow>
       parseChangelog (''## jest 24.0.0\<newline>### Fixes\<newline>* fixed the thing'' @ CHR 0x0A # l) rs = rs \<and>
       parseChangelog ''## jest 24.0.0\<newline>### Fixes\<newline>* fixed the thing'' rs = rs)"
proof -
  let ?st = "\<lparr>release = ''jest 24.0.0'', name = ''v24.0.0'', comment = ''fixed the thing'',
      fixes = True, features = False, maintenance = False, releases = rs\<rparr>"
  have "runParser (''## jest 24.0.0\<newline>### Fixes\<newline>* fixed the thing'' @ CHR 0x0A # l) rs =
      parseLine (dropCR l) ?st"
    using runParser_one_more_line [OF three_lines_fit assms(2,3), of rs]
    by (simp only: three_lines_run)
  then have "parseChangelog (''## jest 24.0.0\<newline>### Fixes\<newline>* fixed the thing'' @ CHR 0x0A # l) rs =
      releases (flushComment ?st)"
    using assms(1) by (simp only: parseChangelog_def releases_parseLine isBoundary_dropCR if_True)
  then have more: "parseChangelog (''## jest 24.0.0\<newline>### Fixes\<newline>* fixed the thing'' @ CHR 0x0A # l) rs =
      insertFix ''jest 24.0.0'' ''v24.0.0'' ''fixed the thing'' rs"
    by (simp add: flushComment_def)
  have alone: "parseChangelog ''## jest 24.0.0\<newline>### Fixes\<newline>* fixed the thing'' rs = rs"
    by (simp only: parseChangelog_def three_lines_run) simp
  show ?thesis
  proof (intro conjI impI)
    show "parseChangelog (''## jest 24.0.0\<newline>### Fixes\<newline>* fixed the thing'' @ CHR 0x0A # l) rs =
      map (\<lambda>r. if Name r = ''v24.0.0''
            then r\<lparr>ReleaseNotes := Some ((notesOrNew r)\<lparr>ReleaseName := ''jest 24.0.0'',
                   Version := ''v24.0.0'', Fixes := Fixes (notesOrNew r) @ [''fixed the thing'']\<rparr>)\<rparr>
            else r) rs"
      by (simp only: more insertFix_map)
    assume absent: "\<forall>r \<in> set rs. Name r \<noteq> ''v24.0.0''"
    show "parseChangelog (''## jest 24.0.0\<newline>### Fixes\<newline>* fixed the thing'' @ CHR 0x0A # l) rs = rs"
      using absent by (simp only: more) (rule insertFix_absent)
    show "parseChangelog ''## jest 24.0.0\<newline>### Fixes\<newline>* fixed the thing'' rs = rs"
      by (rule alone)
  qed
qed

text \<open>
  The three lines and the heading of the next release, against a store that holds
  release 24.0.0 and release 23.6.0.
\<close>

theorem three_lines_then_boundary_witness:
  "parseChangelog (''## jest 24.0.0\<newline>### Fixes\<newline>* fixed the thing'' @ CHR 0x0A # ''## jest 23.6.0'')
     [\<lparr>Name = ''v24.0.0'', ZipballUrl = ''z'', TarballUrl = ''t'',
        Commit = \<lparr>Sha = ''s'', Url = ''u''\<rparr>, ReleaseNotes = None\<rparr>,
      \<lparr>Name = ''v23.6.0'', ZipballUrl = [], TarballUrl = [],
        Commit = \<lparr>Sha = [], Url = []\<rparr>, ReleaseNotes = None\<rparr>] =
     [\<lparr>Name = ''v24.0.0'', ZipballUrl = ''z'', TarballUrl = ''t'',
        Commit = \<lparr>Sha = ''s'', Url = ''u''\<rparr>,
        ReleaseNotes = Some \<lparr>ReleaseName = ''jest 24.0.0'', Version = ''v24.0.0'',
          Fixes = [''fixed the thing''], Features = [], Maintenance = [], Changes = []\<rparr>\<rparr>,
      \<lparr>Name = ''v23.6.0'', ZipballUrl = [], TarballUrl = [],
        Commit = \<lparr>Sha = [], Url = []\<rparr>, ReleaseNotes = None\<rparr>]"
proof -
  have l: "isBoundary ''## jest 23.6.0''" "CHR 0x0A \<notin> set ''## jest 23.6.0''"
    "length ''## jest 23.6.0'' < MaxScanTokenSize"
    by (simp_all add: isBoundary_def MaxScanTokenSize_def)
  show ?thesis
    using three_lines_then_boundary [OF l, of
      "[\<lparr>Name = ''v24.0.0'', ZipballUrl = ''z'', TarballUrl = ''t'',
        Commit = \<lparr>Sha = ''s'', Url = ''u''\<rparr>, ReleaseNotes = None\<rparr>,
      \<lparr>Name = ''v23.6.0'', ZipballUrl = [], TarballUrl = [],
        Commit = \<lparr>Sha = [], Url = []\<rparr>, ReleaseNotes = None\<rparr>]"]
    by (simp add: notesOrNew_def emptyNotes_def)
qed

text \<open>
  C1 as it is stated fails: the run on the three lines alone ends with the bullet still
  buffered, and the release named \<open>v24.0.0\<close> has no notes.
\<close>

theorem three_lines_alone_attach_nothing:
  "scanLines ''## jest 24.0.0\<newline>### Fixes\<newline>* fixed the thing'' =
     [''## jest 24.0.0'', ''### Fixes'', ''* fixed the thing''] \<and>
   comment (runParser ''## jest 24.0.0\<newline>### Fixes\<newline>* fixed the thing''
     [\<lparr>Name = ''v24.0.0'', ZipballUrl = ''z'', TarballUrl = ''t'',
        Commit = \<lparr>Sha = ''s'', Url = ''u''\<rparr>, ReleaseNotes = None\<rparr>]) = ''fixed the thing'' \<and>
   parseChangelog ''## jest 24.0.0\<newline>### Fixes\<newline>* fixed the thing''
     [\<lparr>Name = ''v24.0.0'', ZipballUrl = ''z'', TarballUrl = ''t'',
        Commit = \<lparr>Sha = ''s'', Url = ''u''\<rparr>, ReleaseNotes = None\<rparr>] =
     [\<lparr>Name = ''v24.0.0'', ZipballUrl = ''z'', TarballUrl = ''t'',
        Commit = \<lparr>Sha = ''s'', Url = ''u''\<rparr>, ReleaseNotes = None\<rparr>]"
  by (simp add: parseChangelog_def three_lines_run three_lines_scan)

end
